theory Spec2Isabelle
  imports Main "HOL-Library.Word" "HOL-Library.AList" "HOL-Library.Multiset"
begin

unbundle bit_operations_syntax

chapter \<open>go-besu: private transactions and privacy groups\<close>

text \<open>
  A shallow embedding of the two packages of go-besu: \<^verbatim>\<open>privacy\<close> (privacy groups and the
  deterministic ordering of their participants) and \<^verbatim>\<open>types\<close> (the private transaction, its
  signing digest and signature, and the mapping of a receipt response).

  Conventions of the model.
  \<^item> A Go \<^verbatim>\<open>byte\<close> is an \<open>8 word\<close>, a \<^verbatim>\<open>uint64\<close> (and \<^verbatim>\<open>uint\<close>) a \<open>64 word\<close>, an
    \<^verbatim>\<open>int32\<close> a \<open>32 word\<close> read with \<open>sint\<close>, a \<^verbatim>\<open>*big.Int\<close> an \<open>int\<close>.
  \<^item> A function that can panic or return an error returns \<open>failure + 'a\<close>: \<open>Inl (Panic p)\<close>
    is a run-time panic, \<open>Inl (Error e)\<close> a non-nil \<^verbatim>\<open>error\<close> result, \<open>Inr x\<close> a normal return
    with a nil error.
  \<^item> Pointers to transactions and byte slices are addresses into an explicit store; pointers
    to values that no function of the packages writes through (big integers, addresses,
    public keys of a participant list) are modelled by the value they point to, and are
    taken to be non-nil unless the source tests for nil.
\<close>

section \<open>Bytes, panics and errors\<close>

type_synonym byte = "8 word"

datatype panic =
    NilDereference
  | WrongSignatureSize nat nat
  | TypeAssertion
  | BloomBytesTooBig nat

datatype go_error =
    ErrorText string
  | DecodeFailed string go_error
  | CorruptInputError nat
  | InvalidByteError char
  | ErrLength
  | ErrEmptyString
  | ErrMissingPrefix
  | ErrOddLength
  | ErrSyntax
  | ErrNegativeBigInt

datatype failure = Panic panic | Error go_error

text \<open>
  Sequencing of two steps: a panic or an error of the first step ends the function, a normal
  result is passed on to the second step.
\<close>

definition then_do :: "failure + 'a \<Rightarrow> ('a \<Rightarrow> failure + 'b) \<Rightarrow> failure + 'b" where
  "then_do r f = (case r of Inl e \<Rightarrow> Inl e | Inr x \<Rightarrow> f x)"

section \<open>Library: Keccak-256 (golang.org/x/crypto/sha3, NewLegacyKeccak256)\<close>

text \<open>
  The legacy Keccak-256 of the sponge construction Keccak[512]: rate 136 bytes, padding
  \<open>0x01 ... 0x80\<close>, 24 rounds of \<open>\<iota> \<circ> \<chi> \<circ> \<pi> \<circ> \<rho> \<circ> \<theta>\<close>. The state is five planes (\<open>y\<close>) of five lanes
  (\<open>x\<close>) of 64 bits, least significant bit first.
\<close>

type_synonym lane = "bool list"
type_synonym plane = "lane list"
type_synonym keccak_state = "plane list"

fun xor_lane :: "lane \<Rightarrow> lane \<Rightarrow> lane" where
  "xor_lane (a # as) (b # bs) = (a \<noteq> b) # xor_lane as bs"
| "xor_lane _ _ = []"

fun andnot_lane :: "lane \<Rightarrow> lane \<Rightarrow> lane" where
  "andnot_lane (a # as) (b # bs) = (\<not> a \<and> b) # andnot_lane as bs"
| "andnot_lane _ _ = []"

fun xor_plane :: "plane \<Rightarrow> plane \<Rightarrow> plane" where
  "xor_plane (a # as) (b # bs) = xor_lane a b # xor_plane as bs"
| "xor_plane _ _ = []"

fun andnot_plane :: "plane \<Rightarrow> plane \<Rightarrow> plane" where
  "andnot_plane (a # as) (b # bs) = andnot_lane a b # andnot_plane as bs"
| "andnot_plane _ _ = []"

definition rotl :: "nat \<Rightarrow> lane \<Rightarrow> lane" where
  "rotl n w = drop (64 - n) w @ take (64 - n) w"

definition zero_plane :: plane where
  "zero_plane = replicate 5 (replicate 64 False)"

definition theta :: "keccak_state \<Rightarrow> keccak_state" where
  "theta a = (let c = fold xor_plane a zero_plane;
                  d = xor_plane (rotate 4 c) (map (rotl 1) (rotate 1 c))
              in map (xor_plane d) a)"

definition rho_offsets :: "nat list list" where
  "rho_offsets = [[0, 1, 62, 28, 27], [36, 44, 6, 55, 20], [3, 10, 43, 25, 39],
                  [41, 45, 15, 21, 8], [18, 2, 61, 56, 14]]"

definition rho :: "keccak_state \<Rightarrow> keccak_state" where
  "rho a = map2 (map2 rotl) rho_offsets a"

definition pi :: "keccak_state \<Rightarrow> keccak_state" where
  "pi a = map (\<lambda>y. map (\<lambda>x. a ! x ! ((x + 3 * y) mod 5)) [0..<5]) [0..<5]"

definition chi :: "keccak_state \<Rightarrow> keccak_state" where
  "chi a = map (\<lambda>p. xor_plane p (andnot_plane (rotate 1 p) (rotate 2 p))) a"

fun bits_of :: "nat \<Rightarrow> int \<Rightarrow> bool list" where
  "bits_of 0 n = []"
| "bits_of (Suc k) n = odd n # bits_of k (n div 2)"

fun int_of_bits :: "bool list \<Rightarrow> int" where
  "int_of_bits [] = 0"
| "int_of_bits (b # bs) = (if b then 1 else 0) + 2 * int_of_bits bs"

definition iota :: "int \<Rightarrow> keccak_state \<Rightarrow> keccak_state" where
  "iota rc a = (case a of (l # ls) # ps \<Rightarrow> (xor_lane l (bits_of 64 rc) # ls) # ps | _ \<Rightarrow> a)"

definition keccak_RC :: "int list" where
  "keccak_RC =
    [0x0000000000000001, 0x0000000000008082, 0x800000000000808A, 0x8000000080008000,
     0x000000000000808B, 0x0000000080000001, 0x8000000080008081, 0x8000000000008009,
     0x000000000000008A, 0x0000000000000088, 0x0000000080008009, 0x000000008000000A,
     0x000000008000808B, 0x800000000000008B, 0x8000000000008089, 0x8000000000008003,
     0x8000000000008002, 0x8000000000000080, 0x000000000000800A, 0x800000008000000A,
     0x8000000080008081, 0x8000000000008080, 0x0000000080000001, 0x8000000080008008]"

definition keccak_round :: "int \<Rightarrow> keccak_state \<Rightarrow> keccak_state" where
  "keccak_round rc a = iota rc (chi (pi (rho (theta a))))"

definition keccak_f :: "keccak_state \<Rightarrow> keccak_state" where
  "keccak_f a = fold keccak_round keccak_RC a"

fun chunks :: "nat \<Rightarrow> nat \<Rightarrow> 'a list \<Rightarrow> 'a list list" where
  "chunks 0 n xs = []"
| "chunks (Suc k) n xs = take n xs # chunks k n (drop n xs)"

definition keccak_pad :: "byte list \<Rightarrow> byte list" where
  "keccak_pad m =
     (let q = 136 - length m mod 136
      in if q = 1 then m @ [0x81] else m @ [0x01] @ replicate (q - 2) 0 @ [0x80])"

definition block_state :: "byte list \<Rightarrow> keccak_state" where
  "block_state blk =
     chunks 5 5 (chunks 17 64 (concat (map (\<lambda>b. bits_of 8 (uint b)) blk))
                 @ replicate 8 (replicate 64 False))"

definition absorb :: "byte list \<Rightarrow> keccak_state \<Rightarrow> keccak_state" where
  "absorb blk st = keccak_f (map2 xor_plane st (block_state blk))"

definition squeeze :: "keccak_state \<Rightarrow> byte list" where
  "squeeze st = map (\<lambda>bs. word_of_int (int_of_bits bs)) (chunks 32 8 (concat (concat st)))"

definition keccak256 :: "byte list \<Rightarrow> byte list" where
  "keccak256 m =
     (let p = keccak_pad m
      in squeeze (fold absorb (chunks (length p div 136) 136 p) (replicate 5 zero_plane)))"

section \<open>Library: RLP encoding (go-ethereum/rlp)\<close>

text \<open>The Go values that the two packages hand to \<^verbatim>\<open>rlp.Encode\<close>.\<close>

datatype go_value =
    GoUint "64 word"
  | GoBigInt int
  | GoAddressPtr "byte list option"
  | GoBytes "byte list"
  | GoString string
  | GoSlice "go_value list"

fun be_bytes :: "nat \<Rightarrow> byte list" where
  "be_bytes n = (if n = 0 then [] else be_bytes (n div 256) @ [of_nat (n mod 256)])"

declare be_bytes.simps [simp del]

definition rlp_header :: "nat \<Rightarrow> nat \<Rightarrow> byte list" where
  "rlp_header offset n =
     (if n < 56 then [of_nat (offset + n)]
      else (let sz = be_bytes n in of_nat (offset + 55 + length sz) # sz))"

definition rlp_bytes :: "byte list \<Rightarrow> byte list" where
  "rlp_bytes b =
     (case b of
        [x] \<Rightarrow> if x \<le> 0x7F then [x] else rlp_header 0x80 1 @ [x]
      | _ \<Rightarrow> rlp_header 0x80 (length b) @ b)"

definition bytes_of_string :: "string \<Rightarrow> byte list" where
  "bytes_of_string s = map of_char s"

text \<open>
  \<^verbatim>\<open>rlp.Encode\<close> encodes into a buffer and writes the buffer to the writer only when the
  whole value was encoded; the only encoding error that the values above can raise is a
  negative big integer. A nil pointer to an address is the empty string.
\<close>

fun rlp_Encode :: "go_value \<Rightarrow> go_error + byte list"
  and rlp_Encode_list :: "go_value list \<Rightarrow> go_error + byte list" where
  "rlp_Encode (GoUint i) = Inr (rlp_bytes (be_bytes (unat i)))"
| "rlp_Encode (GoBigInt i) =
     (if i < 0 then Inl ErrNegativeBigInt else Inr (rlp_bytes (be_bytes (nat i))))"
| "rlp_Encode (GoAddressPtr None) = Inr [0x80]"
| "rlp_Encode (GoAddressPtr (Some a)) = Inr (rlp_bytes a)"
| "rlp_Encode (GoBytes b) = Inr (rlp_bytes b)"
| "rlp_Encode (GoString s) = Inr (rlp_bytes (bytes_of_string s))"
| "rlp_Encode (GoSlice vs) =
     (case rlp_Encode_list vs of
        Inl e \<Rightarrow> Inl e
      | Inr payload \<Rightarrow> Inr (rlp_header 0xC0 (length payload) @ payload))"
| "rlp_Encode_list [] = Inr []"
| "rlp_Encode_list (v # vs) =
     (case rlp_Encode v of
        Inl e \<Rightarrow> Inl e
      | Inr b \<Rightarrow> (case rlp_Encode_list vs of Inl e \<Rightarrow> Inl e | Inr bs \<Rightarrow> Inr (b @ bs)))"

section \<open>Library: base64 (encoding/base64, StdEncoding)\<close>

definition encodeStd :: string where
  "encodeStd = ''ABCDEFGHIJKLMNOPQRSTUVWXYZabcdefghijklmnopqrstuvwxyz0123456789+/''"

definition b64_char :: "int \<Rightarrow> char" where
  "b64_char i = encodeStd ! nat i"

fun EncodeToString :: "byte list \<Rightarrow> string" where
  "EncodeToString (a # b # c # rest) =
     (let n = uint a * 65536 + uint b * 256 + uint c
      in b64_char (n div 262144) # b64_char (n div 4096 mod 64) # b64_char (n div 64 mod 64)
           # b64_char (n mod 64) # EncodeToString rest)"
| "EncodeToString [a, b] =
     (let n = uint a * 65536 + uint b * 256
      in [b64_char (n div 262144), b64_char (n div 4096 mod 64), b64_char (n div 64 mod 64),
          CHR ''='']) "
| "EncodeToString [a] =
     (let n = uint a * 65536
      in [b64_char (n div 262144), b64_char (n div 4096 mod 64), CHR ''='', CHR ''=''])"
| "EncodeToString [] = []"

text \<open>
  \<^verbatim>\<open>StdEncoding.DecodeString\<close>: padded, not strict. Line breaks are skipped; the input is read
  in quanta of four characters; padding may only close the last quantum, after two or
  three characters, and only line breaks may follow it. \<open>si\<close> is the index of the next
  character and \<open>q\<close> the 6-bit values read so far in the current quantum. The bytes decoded
  before an error are not part of the model: no caller in the packages reads them.
\<close>

definition decodeMap :: "char \<Rightarrow> int option" where
  "decodeMap c =
     (let n = (of_char c :: int) in
      if 65 \<le> n \<and> n \<le> 90 then Some (n - 65)
      else if 97 \<le> n \<and> n \<le> 122 then Some (n - 71)
      else if 48 \<le> n \<and> n \<le> 57 then Some (n + 4)
      else if n = 43 then Some 62
      else if n = 47 then Some 63
      else None)"

definition is_newline :: "char \<Rightarrow> bool" where
  "is_newline c \<longleftrightarrow> c = CHR 0x0A \<or> c = CHR 0x0D"

fun skip_newlines :: "string \<Rightarrow> nat \<Rightarrow> string \<times> nat" where
  "skip_newlines [] si = ([], si)"
| "skip_newlines (c # cs) si = (if is_newline c then skip_newlines cs (Suc si) else (c # cs, si))"

definition quantum_bytes :: "int list \<Rightarrow> byte list" where
  "quantum_bytes q =
     (let v = foldl (\<lambda>acc x. acc * 64 + x) 0 (q @ replicate (4 - length q) 0)
      in take (length q - 1) [of_int (v div 65536), of_int (v div 256 mod 256), of_int (v mod 256)])"

fun decode_quanta :: "nat \<Rightarrow> int list \<Rightarrow> string \<Rightarrow> go_error + byte list" where
  "decode_quanta si q [] = (if q = [] then Inr [] else Inl (CorruptInputError (si - length q)))"
| "decode_quanta si q (c # cs) =
     (case decodeMap c of
        Some v \<Rightarrow>
          (if length q = 3
           then (case decode_quanta (Suc si) [] cs of
                   Inl err \<Rightarrow> Inl err
                 | Inr bs \<Rightarrow> Inr (quantum_bytes (q @ [v]) @ bs))
           else decode_quanta (Suc si) (q @ [v]) cs)
      | None \<Rightarrow>
          if is_newline c then decode_quanta (Suc si) q cs
          else if c \<noteq> CHR ''='' then Inl (CorruptInputError si)
          else if length q < 2 then Inl (CorruptInputError si)
          else if length q = 2 then
            (case skip_newlines cs (Suc si) of
               ([], si') \<Rightarrow> Inl (CorruptInputError si')
             | (c' # cs', si') \<Rightarrow>
                 if c' \<noteq> CHR ''='' then Inl (CorruptInputError (si' - 1))
                 else (case skip_newlines cs' (Suc si') of
                         ([], si'') \<Rightarrow> Inr (quantum_bytes q)
                       | (c'' # cs'', si'') \<Rightarrow> Inl (CorruptInputError si'')))
          else
            (case skip_newlines cs (Suc si) of
               ([], si') \<Rightarrow> Inr (quantum_bytes q)
             | (c' # cs', si') \<Rightarrow> Inl (CorruptInputError si')))"

definition DecodeString :: "string \<Rightarrow> go_error + byte list" where
  "DecodeString s = decode_quanta 0 [] s"

section \<open>Library: hexadecimal strings (encoding/hex, go-ethereum common and hexutil)\<close>

definition fromHexChar :: "char \<Rightarrow> int option" where
  "fromHexChar c =
     (let n = (of_char c :: int) in
      if 48 \<le> n \<and> n \<le> 57 then Some (n - 48)
      else if 97 \<le> n \<and> n \<le> 102 then Some (n - 87)
      else if 65 \<le> n \<and> n \<le> 70 then Some (n - 55)
      else None)"

text \<open>\<^verbatim>\<open>hex.DecodeString\<close>: the bytes decoded before the first error, and the error if any.\<close>

fun hex_DecodeString :: "string \<Rightarrow> byte list \<times> go_error option" where
  "hex_DecodeString (p # q # rest) =
     (case fromHexChar p of
        None \<Rightarrow> ([], Some (InvalidByteError p))
      | Some a \<Rightarrow>
          (case fromHexChar q of
             None \<Rightarrow> ([], Some (InvalidByteError q))
           | Some b \<Rightarrow>
               (let (bs, err) = hex_DecodeString rest in (of_int (16 * a + b) # bs, err))))"
| "hex_DecodeString [p] =
     (case fromHexChar p of None \<Rightarrow> ([], Some (InvalidByteError p)) | Some a \<Rightarrow> ([], Some ErrLength))"
| "hex_DecodeString [] = ([], None)"

definition has0xPrefix :: "string \<Rightarrow> bool" where
  "has0xPrefix str \<longleftrightarrow>
     (case str of c0 # c1 # _ \<Rightarrow> c0 = CHR ''0'' \<and> (c1 = CHR ''x'' \<or> c1 = CHR ''X'') | _ \<Rightarrow> False)"

definition FromHex :: "string \<Rightarrow> byte list" where
  "FromHex s =
     (let s1 = (if has0xPrefix s then drop 2 s else s);
          s2 = (if odd (length s1) then CHR ''0'' # s1 else s1)
      in fst (hex_DecodeString s2))"

text \<open>\<^verbatim>\<open>SetBytes\<close> of a fixed-size array: the last \<open>n\<close> bytes, padded with zeros on the left.\<close>

definition right_aligned :: "nat \<Rightarrow> byte list \<Rightarrow> byte list" where
  "right_aligned n b =
     (let b' = (if length b > n then drop (length b - n) b else b)
      in replicate (n - length b') 0 @ b')"

definition HexToAddress :: "string \<Rightarrow> byte list" where
  "HexToAddress s = right_aligned 20 (FromHex s)"

definition HexToHash :: "string \<Rightarrow> byte list" where
  "HexToHash s = right_aligned 32 (FromHex s)"

definition mapError :: "go_error \<Rightarrow> go_error" where
  "mapError err =
     (case err of InvalidByteError c \<Rightarrow> ErrSyntax | ErrLength \<Rightarrow> ErrOddLength | _ \<Rightarrow> err)"

definition hexutil_Decode :: "string \<Rightarrow> byte list \<times> go_error option" where
  "hexutil_Decode input =
     (if input = [] then ([], Some ErrEmptyString)
      else if \<not> has0xPrefix input then ([], Some ErrMissingPrefix)
      else (let (b, err) = hex_DecodeString (drop 2 input) in (b, map_option mapError err)))"

text \<open>
  \<^verbatim>\<open>types.BytesToBloom\<close> panics on more than 256 bytes.
\<close>

definition BytesToBloom :: "byte list \<Rightarrow> failure + byte list" where
  "BytesToBloom b =
     (if 256 < length b then Inl (Panic (BloomBytesTooBig (length b)))
      else Inr (right_aligned 256 b))"

text \<open>
  \<^verbatim>\<open>new(big.Int).SetString(s, 16)\<close> with its result ignored: the value left in the receiver is
  the optional sign and the longest run of hexadecimal digits that follows it, zero when
  there is no digit.
\<close>

definition SetString16 :: "string \<Rightarrow> int" where
  "SetString16 s =
     (let neg = (case s of c # _ \<Rightarrow> c = CHR ''-'' | [] \<Rightarrow> False);
          s1 = (case s of c # cs \<Rightarrow> if c = CHR ''-'' \<or> c = CHR ''+'' then cs else s | [] \<Rightarrow> s);
          digits = takeWhile (\<lambda>c. fromHexChar c \<noteq> None) s1;
          v = foldl (\<lambda>acc c. 16 * acc + the (fromHexChar c)) 0 digits
      in if neg then - v else v)"

section \<open>Package privacy (privacy/privacy.go)\<close>

type_synonym PublicKey = "byte list"

record Group =
  ID :: string
  Name :: string
  Description :: string
  Type :: string
  Members :: "PublicKey list"

text \<open>
  \<^verbatim>\<open>PublicKey.Hash\<close>. The accumulator \<^verbatim>\<open>result\<close> is a Go \<^verbatim>\<open>int\<close> (64 bits); each step widens
  the byte to \<^verbatim>\<open>int32\<close>, shifts it left and then arithmetically right by 24, adds it to
  \<^verbatim>\<open>31*result\<close>, masks with \<^verbatim>\<open>0xffffffff\<close>, truncates to \<^verbatim>\<open>int32\<close> and widens to \<^verbatim>\<open>int\<close>.
\<close>

definition Hash_step :: "64 word \<Rightarrow> byte \<Rightarrow> 64 word" where
  "Hash_step result v =
     scast (ucast ((31 * result
                    + scast (signed_drop_bit 24 (push_bit 24 (ucast v :: 32 word))))
                   AND 0xffffffff) :: 32 word)"

definition Hash :: "PublicKey \<Rightarrow> int" where
  "Hash pub = sint (foldl Hash_step 1 pub)"

text \<open>
  \<^verbatim>\<open>Privacy.sort\<close>. The Go map \<^verbatim>\<open>hashMap\<close>, filled by the first loop, is an association list with
  one entry per key;
  the order in which Go ranges over the map is unspecified, and the keys are sorted
  before they are used, so any order of the entries gives the same result.
\<close>

definition sort_hashMap :: "PublicKey list \<Rightarrow> (int \<times> PublicKey) list" where
  "sort_hashMap participants = foldl (\<lambda>m p. AList.update (Hash p) p m) [] participants"

definition sort_participants :: "PublicKey list \<Rightarrow> PublicKey list" where
  "sort_participants participants =
     (let hashMap = sort_hashMap participants;
          keys = sort (map fst hashMap)
      in map (\<lambda>v. the (map_of hashMap v)) keys)"

text \<open>\<^verbatim>\<open>rlpHash\<close> of package privacy: the zero hash when the encoder fails.\<close>

definition rlpHash_privacy :: "go_value \<Rightarrow> byte list" where
  "rlpHash_privacy x =
     (case rlp_Encode x of Inl err \<Rightarrow> replicate 32 0 | Inr b \<Rightarrow> keccak256 b)"

definition FindRootPrivacyGroup :: "PublicKey list \<Rightarrow> Group" where
  "FindRootPrivacyGroup participants =
     (let sortParticipants = sort_participants participants;
          h = rlpHash_privacy (GoSlice (map GoBytes sortParticipants))
      in \<lparr>ID = EncodeToString h, Name = [], Description = [], Type = [], Members = []\<rparr>)"


definition ToPublicKey :: "string \<Rightarrow> go_error + PublicKey" where
  "ToPublicKey key = DecodeString key"

text \<open>
  Values of type \<^verbatim>\<open>interface{}\<close> as the packages inspect them: nil, a string, a byte slice, a
  \<^verbatim>\<open>[]interface{}\<close>, a \<^verbatim>\<open>map[string]interface{}\<close>, or a value of any other dynamic type. A type
  assertion on a value of another type, or on nil, panics.
\<close>

datatype go_any =
    AnyNil
  | AnyString string
  | AnyBytes "byte list"
  | AnySlice "go_any list"
  | AnyMap "(string \<times> go_any) list"
  | AnyOther

definition assert_string :: "go_any option \<Rightarrow> failure + string" where
  "assert_string v = (case v of Some (AnyString s) \<Rightarrow> Inr s | _ \<Rightarrow> Inl (Panic TypeAssertion))"

definition assert_slice :: "go_any option \<Rightarrow> failure + go_any list" where
  "assert_slice v = (case v of Some (AnySlice xs) \<Rightarrow> Inr xs | _ \<Rightarrow> Inl (Panic TypeAssertion))"

definition assert_bytes :: "go_any option \<Rightarrow> failure + byte list" where
  "assert_bytes v = (case v of Some (AnyBytes b) \<Rightarrow> Inr b | _ \<Rightarrow> Inl (Panic TypeAssertion))"










text \<open>
  The ordering as the specification words it: every byte of the key is folded into a running
  accumulator by \<open>acc = (31 * acc + signExtend8to32 byte) mod 2^32\<close>, reinterpreted as a signed
  32-bit value. The accumulator starts at 1, as \<^verbatim>\<open>result := int(1)\<close> does.
\<close>

definition signExtend8to32 :: "byte \<Rightarrow> int" where
  "signExtend8to32 b = (if uint b < 128 then uint b else uint b - 256)"

definition reinterpret_signed32 :: "int \<Rightarrow> int" where
  "reinterpret_signed32 u = (if u < 2 ^ 31 then u else u - 2 ^ 32)"

definition accumulator_step :: "int \<Rightarrow> byte \<Rightarrow> int" where
  "accumulator_step acc b = reinterpret_signed32 ((31 * acc + signExtend8to32 b) mod 2 ^ 32)"

definition accumulator :: "PublicKey \<Rightarrow> int" where
  "accumulator key = foldl accumulator_step 1 key"

text \<open>Two distinct 32-byte keys with the same accumulator, and a third key.\<close>

definition keyA :: PublicKey where
  "keyA = [0, 0, 0, 0, 0, 0, 0, 0, 0, 0, 0, 0, 0, 0, 0, 0, 0, 0, 0, 0, 0, 0, 0, 0, 0, 0,
     0, 0, 0, 0, 0, 31]"

definition keyB :: PublicKey where
  "keyB = [0, 0, 0, 0, 0, 0, 0, 0, 0, 0, 0, 0, 0, 0, 0, 0, 0, 0, 0, 0, 0, 0, 0, 0, 0, 0,
     0, 0, 0, 0, 1, 0]"

text \<open>
  The three keys of the example of the README: \<^verbatim>\<open>privateFrom\<close>, \<^verbatim>\<open>privateFor1\<close> and
  \<^verbatim>\<open>privateFor2\<close>, base64-decoded.
\<close>

definition privateFrom_key :: PublicKey where
  "privateFrom_key =
    [3, 86, 149, 180, 204, 75, 9, 65, 230, 5, 81, 215, 161, 156, 243, 6, 3, 219, 91,
     252, 35, 229, 172, 67, 165, 111, 87, 242, 95, 117, 72, 106]"

definition privateFor1_key :: PublicKey where
  "privateFor1_key =
    [42, 141, 155, 86, 160, 254, 156, 217, 77, 96, 190, 68, 19, 188, 183, 33, 211,
     167, 190, 39, 237, 142, 40, 179, 166, 52, 109, 248, 116, 238, 20, 27]"

definition privateFor2_key :: PublicKey where
  "privateFor2_key =
    [147, 108, 215, 18, 41, 248, 34, 159, 234, 4, 105, 81, 144, 151, 163, 156, 101,
     157, 63, 215, 35, 144, 175, 131, 2, 242, 141, 91, 125, 75, 216, 47]"

section \<open>Package types: the private transaction\<close>

text \<open>
  The store. A byte slice is a reference (array, offset, length) into the backing arrays; a
  \<^verbatim>\<open>*PrivateTransaction\<close> is an address of the list of transaction objects, and a new object
  is allocated at the end of the list. A nil slice is a slice of length 0. An address that
  is not allocated stands for the nil pointer: dereferencing it panics.
\<close>

record bslice =
  s_array :: nat
  s_offset :: nat
  s_len :: nat

record txdata =
  AccountNonce :: "64 word"
  Price :: int
  GasLimit :: "64 word"
  Recipient :: "byte list option"
  Amount :: int
  Payload :: bslice
  V :: int
  R :: int
  S :: int
  PrivateFrom :: bslice
  PrivateFor :: "bslice list"
  Restriction :: string

record store =
  arrays :: "byte list list"
  transactions :: "txdata list"

definition slice_bytes :: "store \<Rightarrow> bslice \<Rightarrow> byte list" where
  "slice_bytes st b =
     (if s_array b < length (arrays st)
      then take (s_len b) (drop (s_offset b) (arrays st ! s_array b)) else [])"

definition valid_slice :: "store \<Rightarrow> bslice \<Rightarrow> bool" where
  "valid_slice st b \<longleftrightarrow>
     s_array b < length (arrays st) \<and> s_offset b + s_len b \<le> length (arrays st ! s_array b)"

definition deref :: "store \<Rightarrow> nat \<Rightarrow> txdata option" where
  "deref st tx = (if tx < length (transactions st) then Some (transactions st ! tx) else None)"

text \<open>\<^verbatim>\<open>common.CopyBytes\<close> on a non-nil slice: a new array with the bytes of the slice.\<close>

definition CopyBytes :: "store \<Rightarrow> bslice \<Rightarrow> bslice \<times> store" where
  "CopyBytes st b =
     (\<lparr>s_array = length (arrays st), s_offset = 0, s_len = s_len b\<rparr>,
      st\<lparr>arrays := arrays st @ [slice_bytes st b]\<rparr>)"

text \<open>
  \<^verbatim>\<open>newTransaction\<close>. The arguments \<^verbatim>\<open>amount\<close> and \<^verbatim>\<open>gasPrice\<close> may be nil (\<open>None\<close>), \<^verbatim>\<open>to\<close>
  is nil for a contract creation.
\<close>

definition newTransaction ::
  "store \<Rightarrow> 64 word \<Rightarrow> byte list option \<Rightarrow> int option \<Rightarrow> 64 word \<Rightarrow> int option
     \<Rightarrow> bslice \<Rightarrow> bslice \<Rightarrow> bslice list \<Rightarrow> nat \<times> store" where
  "newTransaction st nonce to amount gasLimit gasPrice data privateFrom privateFor =
     (let (data', st1) = (if s_len data > 0 then CopyBytes st data else (data, st));
          d = \<lparr>AccountNonce = nonce, Price = 0, GasLimit = gasLimit, Recipient = to,
               Amount = 0, Payload = data', V = 0, R = 0, S = 0,
               PrivateFrom = privateFrom, PrivateFor = privateFor,
               Restriction = ''restricted''\<rparr>;
          d1 = (case amount of None \<Rightarrow> d | Some a \<Rightarrow> d\<lparr>Amount := a\<rparr>);
          d2 = (case gasPrice of None \<Rightarrow> d1 | Some g \<Rightarrow> d1\<lparr>Price := g\<rparr>)
      in (length (transactions st1), st1\<lparr>transactions := transactions st1 @ [d2]\<rparr>))"

definition NewContractCreation ::
  "store \<Rightarrow> 64 word \<Rightarrow> int option \<Rightarrow> 64 word \<Rightarrow> int option
     \<Rightarrow> bslice \<Rightarrow> bslice \<Rightarrow> bslice list \<Rightarrow> nat \<times> store" where
  "NewContractCreation st nonce amount gasLimit gasPrice data privateFrom privateFor =
     newTransaction st nonce None amount gasLimit gasPrice data privateFrom privateFor"

text \<open>
  A later write of the caller through a slice: \<^verbatim>\<open>b[i] = v\<close> for \<open>i < len(b)\<close>.
\<close>

definition write_slice :: "store \<Rightarrow> bslice \<Rightarrow> nat \<Rightarrow> byte \<Rightarrow> store" where
  "write_slice st b i v =
     st\<lparr>arrays := (arrays st)[s_array b := (arrays st ! s_array b)[s_offset b + i := v]]\<rparr>"

text \<open>
  \<^verbatim>\<open>rlpHash\<close> of package types: the result of \<^verbatim>\<open>rlp.Encode\<close> is ignored, so when the encoder
  fails nothing was written to the hasher and the sum is the digest of the empty input.
\<close>

definition rlpHash :: "go_value \<Rightarrow> byte list" where
  "rlpHash x = keccak256 (case rlp_Encode x of Inl err \<Rightarrow> [] | Inr b \<Rightarrow> b)"

definition hash :: "store \<Rightarrow> nat \<Rightarrow> int \<Rightarrow> failure + byte list" where
  "hash st tx chainID =
     (case deref st tx of
        None \<Rightarrow> Inl (Panic NilDereference)
      | Some d \<Rightarrow>
          Inr (rlpHash (GoSlice
            [GoUint (AccountNonce d),
             GoBigInt (Price d),
             GoUint (GasLimit d),
             GoAddressPtr (Recipient d),
             GoBigInt (Amount d),
             GoBytes (slice_bytes st (Payload d)),
             GoBigInt chainID, GoUint 0, GoUint 0,
             GoBytes (slice_bytes st (PrivateFrom d)),
             GoSlice (map (\<lambda>b. GoBytes (slice_bytes st b)) (PrivateFor d)),
             GoString (Restriction d)])))"

text \<open>
  \<^verbatim>\<open>big.Int.SetBytes\<close> reads a big-endian unsigned integer; \<^verbatim>\<open>big.Int.Uint64\<close> gives the low
  64 bits of the magnitude; \<^verbatim>\<open>big.Int.SetUint64\<close> is \<open>uint\<close>.
\<close>

definition SetBytes :: "byte list \<Rightarrow> int" where
  "SetBytes buf = foldl (\<lambda>acc b. 256 * acc + uint b) 0 buf"

definition Uint64 :: "int \<Rightarrow> 64 word" where
  "Uint64 x = word_of_int \<bar>x\<bar>"

definition SignatureLength :: nat where
  "SignatureLength = 64 + 1"

definition signatureValues :: "nat \<Rightarrow> byte list \<Rightarrow> failure + (int \<times> int \<times> int)" where
  "signatureValues tx sig =
     (if length sig \<noteq> SignatureLength
      then Inl (Panic (WrongSignatureSize (length sig) SignatureLength))
      else Inr (SetBytes (take 32 sig), SetBytes (take 32 (drop 32 sig)),
                SetBytes [sig ! 64 + 27]))"

definition withSignature :: "store \<Rightarrow> nat \<Rightarrow> byte list \<Rightarrow> int \<Rightarrow> failure + (nat \<times> store)" where
  "withSignature st tx sig chainID =
     (case signatureValues tx sig of
        Inl err \<Rightarrow> Inl err
      | Inr (r, s, v) \<Rightarrow>
          (let newV = Uint64 v + Uint64 chainID * 2 + 8 in
           case deref st tx of
             None \<Rightarrow> Inl (Panic NilDereference)
           | Some d \<Rightarrow>
               (let cpy = d\<lparr>R := r, S := s, V := uint newV\<rparr>
                in Inr (length (transactions st), st\<lparr>transactions := transactions st @ [cpy]\<rparr>))))"

text \<open>
  \<^verbatim>\<open>SignTx\<close>. The signing primitive \<^verbatim>\<open>crypto.Sign\<close> is a parameter: it returns an error or
  the raw signature.
\<close>

definition SignTx ::
  "(byte list \<Rightarrow> 'k \<Rightarrow> go_error + byte list) \<Rightarrow> store \<Rightarrow> nat \<Rightarrow> int \<Rightarrow> 'k
     \<Rightarrow> failure + (nat \<times> store)" where
  "SignTx Sign st tx chainID prv =
     (case hash st tx chainID of
        Inl p \<Rightarrow> Inl p
      | Inr h \<Rightarrow>
          (case Sign h prv of
             Inl err \<Rightarrow> Inl (Error err)
           | Inr sig \<Rightarrow> withSignature st tx sig chainID))"

section \<open>Package types: the receipt of a private transaction\<close>

text \<open>
  \<^verbatim>\<open>PrivateReceipt\<close>. The three privacy fields carry the prefix \<open>Receipt\<close>, since the
  transaction has fields of the same names. \<^verbatim>\<open>Logs\<close> is a slice of pointers to logs, \<open>None\<close>
  being the nil pointer; \<^verbatim>\<open>BlockNumber\<close> is a pointer to a big integer.
\<close>

record 'l PrivateReceipt =
  PostState :: "byte list"
  Status :: "64 word"
  Bloom :: "byte list"
  Logs :: "'l option list"
  TxHash :: "byte list"
  ContractAddress :: "byte list"
  BlockHash :: "byte list"
  BlockNumber :: "int option"
  TransactionIndex :: "64 word"
  ReceiptPrivateFrom :: PublicKey
  ReceiptPrivateFor :: "PublicKey list"
  ReceiptRestriction :: string
  CommitmentHash :: "byte list"
  Output :: "byte list"

text \<open>
  \<^verbatim>\<open>types.Log.UnmarshalJSON\<close> of go-ethereum, called through a nil \<^verbatim>\<open>*Log\<close>. The generated
  method decodes the input into a local value and returns the error of the decoder
  (\<^verbatim>\<open>json.Unmarshal\<close>, then the checks of the required fields) when there is one; only then
  does it store the fields through its receiver, which panics when the receiver is nil. A
  call of a method through a nil pointer does not panic by itself. The decoder is the
  parameter \<open>decode\<close>.
\<close>

definition UnmarshalJSON_nil :: "(byte list \<Rightarrow> go_error + 'l) \<Rightarrow> byte list \<Rightarrow> failure + unit" where
  "UnmarshalJSON_nil decode input =
     (case decode input of Inl err \<Rightarrow> Inl (Error err) | Inr l \<Rightarrow> Inl (Panic NilDereference))"

fun decode_privateFor :: "go_any list \<Rightarrow> PublicKey list \<Rightarrow> failure + PublicKey list" where
  "decode_privateFor [] privateFor = Inr privateFor"
| "decode_privateFor (v # vs) privateFor =
     then_do (assert_string (Some v)) (\<lambda>s.
       case ToPublicKey s of
         Inl err \<Rightarrow> decode_privateFor vs privateFor
       | Inr key \<Rightarrow> decode_privateFor vs (privateFor @ [key]))"

text \<open>
  The loop over \<^verbatim>\<open>r["logs"]\<close>: \<^verbatim>\<open>log\<close> is declared as a nil pointer in every iteration; an
  error of \<^verbatim>\<open>UnmarshalJSON\<close> skips the entry, a nil error appends the (nil) pointer.
\<close>

fun decode_logs ::
  "(byte list \<Rightarrow> go_error + 'l) \<Rightarrow> go_any list \<Rightarrow> 'l option list \<Rightarrow> failure + 'l option list" where
  "decode_logs decode [] logs = Inr logs"
| "decode_logs decode (v # vs) logs =
     then_do (assert_bytes (Some v)) (\<lambda>input.
       case UnmarshalJSON_nil decode input of
         Inl (Panic p) \<Rightarrow> Inl (Panic p)
       | Inl (Error err) \<Rightarrow> decode_logs decode vs logs
       | Inr u \<Rightarrow> decode_logs decode vs (logs @ [None]))"

text \<open>
  \<^verbatim>\<open>MarshalPrivateReceipt\<close>, in the order of the source: the entries read before
  \<^verbatim>\<open>logs\<close>, the loop over the logs, the entries read after it.
\<close>

definition receipt_before_logs ::
  "(string \<rightharpoonup> go_any) \<Rightarrow>
     failure + (byte list \<times> byte list \<times> byte list \<times> byte list \<times> PublicKey \<times> PublicKey list \<times> 64 word)" where
  "receipt_before_logs r =
     then_do (case r ''contractAddress'' of
                None \<Rightarrow> Inr (replicate 20 0)
              | Some v \<Rightarrow> then_do (assert_string (Some v)) (\<lambda>s. Inr (HexToAddress s)))
       (\<lambda>contractAddress.
     then_do (case r ''output'' of
                None \<Rightarrow> Inr []
              | Some v \<Rightarrow> then_do (assert_string (Some v)) (\<lambda>s. Inr (fst (hexutil_Decode s))))
       (\<lambda>output.
     if r ''commitmentHash'' = None then Inl (Error (ErrorText ''commitmentHash not found''))
     else then_do (assert_string (r ''commitmentHash'')) (\<lambda>s.
     let commitmentHash = HexToHash s in
     if r ''transactionHash'' = None then Inl (Error (ErrorText ''transactionHash not found''))
     else then_do (assert_string (r ''transactionHash'')) (\<lambda>s.
     let transactionHash = HexToHash s in
     if r ''privateFrom'' = None then Inl (Error (ErrorText ''privateFrom not found''))
     else then_do (assert_string (r ''privateFrom'')) (\<lambda>s.
     case ToPublicKey s of
       Inl err \<Rightarrow> Inl (Error err)
     | Inr privateFrom \<Rightarrow>
     if r ''privateFor'' = None then Inl (Error (ErrorText ''privateFor not found''))
     else then_do (assert_slice (r ''privateFor'')) (\<lambda>vs.
     then_do (decode_privateFor vs []) (\<lambda>privateFor.
     then_do (case r ''status'' of
                None \<Rightarrow> Inr 0
              | Some v \<Rightarrow> then_do (assert_string (Some v)) (\<lambda>s. Inr (if s = ''0x1'' then 1 else 0)))
       (\<lambda>status.
     Inr (contractAddress, output, commitmentHash, transactionHash, privateFrom, privateFor,
          status)))))))))"

definition receipt_after_logs ::
  "(string \<rightharpoonup> go_any) \<Rightarrow> failure + (byte list \<times> byte list \<times> int option \<times> 64 word)" where
  "receipt_after_logs r =
     (if r ''logsBloom'' = None then Inl (Error (ErrorText ''logsBloom not found''))
      else then_do (assert_string (r ''logsBloom'')) (\<lambda>logsBloomString.
      case hexutil_Decode logsBloomString of
        (logsBloomBytes, Some err) \<Rightarrow> Inl (Error (DecodeFailed logsBloomString err))
      | (logsBloomBytes, None) \<Rightarrow>
      then_do (BytesToBloom logsBloomBytes) (\<lambda>logsBloom.
      then_do (case r ''blockHash'' of
                 None \<Rightarrow> Inr (replicate 32 0)
               | Some v \<Rightarrow> then_do (assert_string (Some v)) (\<lambda>s. Inr (HexToHash s)))
        (\<lambda>blockHash.
      then_do (case r ''blockNumber'' of
                 None \<Rightarrow> Inr None
               | Some v \<Rightarrow> then_do (assert_string (Some v)) (\<lambda>s. Inr (Some (SetString16 s))))
        (\<lambda>blockNumber.
      then_do (case r ''transactionIndex'' of
                 None \<Rightarrow> Inr 0
               | Some v \<Rightarrow> then_do (assert_string (Some v)) (\<lambda>s. Inr (Uint64 (SetString16 s))))
        (\<lambda>transactionIndex.
      Inr (logsBloom, blockHash, blockNumber, transactionIndex)))))))"

definition MarshalPrivateReceipt ::
  "(byte list \<Rightarrow> go_error + 'l) \<Rightarrow> (string \<rightharpoonup> go_any) \<Rightarrow> failure + 'l PrivateReceipt" where
  "MarshalPrivateReceipt decode r =
     then_do (receipt_before_logs r)
       (\<lambda>(contractAddress, output, commitmentHash, transactionHash, privateFrom, privateFor,
           status).
     if r ''logs'' = None then Inl (Error (ErrorText ''logs not found''))
     else then_do (assert_slice (r ''logs'')) (\<lambda>vs.
     then_do (decode_logs decode vs []) (\<lambda>logs.
     then_do (receipt_after_logs r) (\<lambda>(logsBloom, blockHash, blockNumber, transactionIndex).
     Inr \<lparr>PostState = [], Status = status, Bloom = logsBloom, Logs = logs,
          TxHash = transactionHash, ContractAddress = contractAddress,
          BlockHash = blockHash, BlockNumber = blockNumber,
          TransactionIndex = transactionIndex, ReceiptPrivateFrom = privateFrom,
          ReceiptPrivateFor = privateFor, ReceiptRestriction = ''restricted'',
          CommitmentHash = commitmentHash, Output = output\<rparr>))))"

text \<open>
  An entry that may be absent and is a string when present; an entry that is a string; an
  entry that is a string of valid base64; an entry that is a list of strings; a log entry
  that the loop skips: a byte slice that the decoder rejects.
\<close>

definition optional_string :: "(string \<rightharpoonup> go_any) \<Rightarrow> string \<Rightarrow> bool" where
  "optional_string r k = (case r k of None \<Rightarrow> True | Some (AnyString s) \<Rightarrow> True | _ \<Rightarrow> False)"

definition string_entry :: "(string \<rightharpoonup> go_any) \<Rightarrow> string \<Rightarrow> bool" where
  "string_entry r k = (case r k of Some (AnyString s) \<Rightarrow> True | _ \<Rightarrow> False)"

definition key_entry :: "(string \<rightharpoonup> go_any) \<Rightarrow> string \<Rightarrow> bool" where
  "key_entry r k =
     (case r k of
        Some (AnyString s) \<Rightarrow> (case ToPublicKey s of Inl err \<Rightarrow> False | Inr key \<Rightarrow> True)
      | _ \<Rightarrow> False)"

definition strings_entry :: "(string \<rightharpoonup> go_any) \<Rightarrow> string \<Rightarrow> bool" where
  "strings_entry r k =
     (case r k of
        Some (AnySlice vs) \<Rightarrow> list_all (\<lambda>v. case v of AnyString s \<Rightarrow> True | _ \<Rightarrow> False) vs
      | _ \<Rightarrow> False)"

text \<open>
  The entries that \<^verbatim>\<open>MarshalPrivateReceipt\<close> reads before \<^verbatim>\<open>logs\<close> are well-formed: the optional
  ones are absent or strings, the two hashes are strings, \<^verbatim>\<open>privateFrom\<close> is a string of valid
  base64 and \<^verbatim>\<open>privateFor\<close> a list of strings.
\<close>

definition well_formed_before_logs :: "(string \<rightharpoonup> go_any) \<Rightarrow> bool" where
  "well_formed_before_logs r \<longleftrightarrow>
     optional_string r ''contractAddress'' \<and> optional_string r ''output''
     \<and> string_entry r ''commitmentHash'' \<and> string_entry r ''transactionHash''
     \<and> key_entry r ''privateFrom'' \<and> strings_entry r ''privateFor''
     \<and> optional_string r ''status''"

definition rejected :: "(byte list \<Rightarrow> go_error + 'l) \<Rightarrow> go_any \<Rightarrow> bool" where
  "rejected decode v = (case v of AnyBytes b \<Rightarrow> isl (decode b) | _ \<Rightarrow> False)"

text \<open>
  A log decoder for the examples. It is applied to the empty input only, which
  \<^verbatim>\<open>json.Unmarshal\<close> rejects with this error.
\<close>

definition decode_nothing :: "byte list \<Rightarrow> go_error + unit" where
  "decode_nothing input = Inl (ErrorText ''unexpected end of JSON input'')"

text \<open>
  A receipt response with every required entry and one log entry, the empty byte slice.
\<close>

definition example_response :: "(string \<times> go_any) list" where
  "example_response =
     [(''commitmentHash'', AnyString ''0x01''),
      (''transactionHash'', AnyString ''0x02''),
      (''privateFrom'', AnyString ''A1aVtMxLCUHmBVHXoZzzBgPbW/wj5axDpW9X8l91SGo=''),
      (''privateFor'', AnySlice [AnyString ''Ko2bVqD+nNlNYL5EE7y3IdOnviftjiizpjRt+HTuFBs='']),
      (''status'', AnyString ''0x1''),
      (''logsBloom'', AnyString ''0x00''),
      (''logs'', AnySlice [AnyBytes []])]"

text \<open>
  The signing digest as the specification words it: the canonical encoding of a tree of
  byte strings and lists, an integer being the string of its big-endian digits without
  leading zeros; a negative integer has no encoding.
\<close>

datatype rlp_item = RLP_string "byte list" | RLP_list "rlp_item list"

fun rlp_canonical :: "rlp_item \<Rightarrow> byte list" where
  "rlp_canonical (RLP_string b) = rlp_bytes b"
| "rlp_canonical (RLP_list items) =
     (let payload = concat (map rlp_canonical items)
      in rlp_header 0xC0 (length payload) @ payload)"

definition rlp_integer :: "int \<Rightarrow> rlp_item option" where
  "rlp_integer i = (if i < 0 then None else Some (RLP_string (be_bytes (nat i))))"

definition signingDigest ::
  "int \<Rightarrow> int \<Rightarrow> int \<Rightarrow> byte list option \<Rightarrow> int \<Rightarrow> byte list \<Rightarrow> int
     \<Rightarrow> byte list \<Rightarrow> byte list list \<Rightarrow> byte list \<Rightarrow> byte list option" where
  "signingDigest nonce gasPrice gasLimit recipient amount payload chainId
       privateFrom privateFor restriction =
     (case (rlp_integer nonce, rlp_integer gasPrice, rlp_integer gasLimit, rlp_integer amount,
            rlp_integer chainId, rlp_integer 0) of
        (Some n, Some gp, Some gl, Some a, Some c, Some z) \<Rightarrow>
          Some (keccak256 (rlp_canonical (RLP_list
            [n, gp, gl,
             (case recipient of None \<Rightarrow> RLP_string [] | Some addr \<Rightarrow> RLP_string addr),
             a, RLP_string payload, c, z, z,
             RLP_string privateFrom, RLP_list (map RLP_string privateFor),
             RLP_string restriction])))
      | _ \<Rightarrow> None)"

text \<open>A store with one transaction, used for the concrete examples.\<close>

definition example_store :: store where
  "example_store =
     \<lparr>arrays = [[0x01, 0x21, 0xb9, 0x3f], privateFrom_key, privateFor1_key, privateFor2_key],
      transactions =
        [\<lparr>AccountNonce = 7, Price = 0, GasLimit = 3000000, Recipient = None, Amount = 0,
          Payload = \<lparr>s_array = 0, s_offset = 0, s_len = 4\<rparr>, V = 0, R = 0, S = 0,
          PrivateFrom = \<lparr>s_array = 1, s_offset = 0, s_len = 32\<rparr>,
          PrivateFor = [\<lparr>s_array = 2, s_offset = 0, s_len = 32\<rparr>,
                        \<lparr>s_array = 3, s_offset = 0, s_len = 32\<rparr>],
          Restriction = ''restricted''\<rparr>]\<rparr>"

text \<open>
  Signing primitives for the examples: one that returns the 65 bytes of
  \<open>example_signature\<close>, one that returns no byte.
\<close>

definition example_signature :: "byte list" where
  "example_signature = replicate 32 0x11 @ replicate 32 0x22 @ [0]"

definition example_signer :: "byte list \<Rightarrow> unit \<Rightarrow> go_error + byte list" where
  "example_signer h prv = Inr example_signature"

definition short_signer :: "byte list \<Rightarrow> unit \<Rightarrow> go_error + byte list" where
  "short_signer h prv = Inr []"

text \<open>The \<open>v\<close> of the transaction that a signing call returned.\<close>

definition stored_V :: "failure + (nat \<times> store) \<Rightarrow> int option" where
  "stored_V res = (case res of Inl e \<Rightarrow> None | Inr (tx', st') \<Rightarrow> map_option V (deref st' tx'))"



chapter \<open>Properties\<close>

section \<open>The participant hash is the 32-bit signed fold\<close>

lemma signed_drop_push_24: "signed_drop_bit 24 (push_bit 24 (ucast (v::byte) :: 32 word)) = scast v"
  by (rule bit_word_eqI) (auto simp add: bit_simps)

lemma mask_32_numeral: "(0xffffffff :: 64 word) = mask 32"
  by (simp add: mask_eq_exp_minus_1)

lemma sint_scast_32_64: "sint (scast (x :: 32 word) :: 64 word) = sint x"
  by (rule sint_up_scast) (simp add: is_up)

lemma sint_scast_8_32: "sint (scast (x :: byte) :: 32 word) = sint x"
  by (rule sint_up_scast) (simp add: is_up)

lemma sint_ucast_64_32: "sint (ucast (y :: 64 word) :: 32 word) = signed_take_bit 31 (uint y)"
  by (simp add: signed_ucast_eq)

lemma signed_take_bit_and_mask_32:
  "signed_take_bit 31 (uint ((t :: 64 word) AND mask 32)) = signed_take_bit 31 (uint t)"
  by (simp add: and_mask_bintr uint_word_of_int_eq signed_take_bit_take_bit)

lemma take_bit_32_uint: "take_bit 32 (uint (x :: 64 word)) = take_bit 32 (sint x)"
  by (simp add: sint_uint take_bit_signed_take_bit)

lemma take_bit_32_add: "take_bit 32 (uint (a + b :: 64 word)) = take_bit 32 (sint a + sint b)"
proof -
  have "take_bit 32 (uint (a + b)) = take_bit 32 (take_bit 64 (uint a + uint b))"
    by (simp add: uint_word_ariths take_bit_eq_mod)
  also have "\<dots> = take_bit 32 (uint a + uint b)" by simp
  also have "\<dots> = take_bit 32 (take_bit 32 (uint a) + take_bit 32 (uint b))"
    by (simp add: take_bit_add)
  also have "\<dots> = take_bit 32 (take_bit 32 (sint a) + take_bit 32 (sint b))"
    by (simp only: take_bit_32_uint)
  also have "\<dots> = take_bit 32 (sint a + sint b)"
    by (simp add: take_bit_add)
  finally show ?thesis .
qed

lemma take_bit_32_mult_31: "take_bit 32 (sint (31 * w :: 64 word)) = take_bit 32 (31 * sint w)"
proof -
  have "take_bit 32 (sint (31 * w)) = take_bit 32 (uint (31 * w))"
    by (simp only: take_bit_32_uint)
  also have "\<dots> = take_bit 32 (take_bit 64 (31 * uint w))"
    by (simp add: uint_word_ariths take_bit_eq_mod)
  also have "\<dots> = take_bit 32 (31 * uint w)" by simp
  also have "\<dots> = take_bit 32 (take_bit 32 31 * take_bit 32 (uint w))"
    by (simp only: take_bit_mult)
  also have "\<dots> = take_bit 32 (take_bit 32 31 * take_bit 32 (sint w))"
    by (simp only: take_bit_32_uint)
  also have "\<dots> = take_bit 32 (31 * sint w)"
    by (simp only: take_bit_mult)
  finally show ?thesis .
qed

lemma take_bit_32_step:
  "take_bit 32 (uint (31 * w + s :: 64 word)) = take_bit 32 (31 * sint w + sint s)"
proof -
  have "take_bit 32 (uint (31 * w + s)) = take_bit 32 (sint (31 * w) + sint s)"
    by (rule take_bit_32_add)
  also have "\<dots> = take_bit 32 (take_bit 32 (sint (31 * w)) + take_bit 32 (sint s))"
    by (simp only: take_bit_add)
  also have "\<dots> = take_bit 32 (take_bit 32 (31 * sint w) + take_bit 32 (sint s))"
    by (simp only: take_bit_32_mult_31)
  also have "\<dots> = take_bit 32 (31 * sint w + sint s)"
    by (simp only: take_bit_add)
  finally show ?thesis .
qed

lemma Hash_step_sint: "sint (Hash_step w v) = signed_take_bit 31 (31 * sint w + sint v)"
proof -
  let ?t = "31 * w + scast (scast v :: 32 word) :: 64 word"
  have "sint (Hash_step w v) = sint (ucast (?t AND mask 32) :: 32 word)"
    unfolding Hash_step_def signed_drop_push_24 mask_32_numeral by (rule sint_scast_32_64)
  also have "\<dots> = signed_take_bit 31 (uint (?t AND mask 32))"
    by (rule sint_ucast_64_32)
  also have "\<dots> = signed_take_bit 31 (uint ?t)"
    by (rule signed_take_bit_and_mask_32)
  also have "\<dots> = signed_take_bit 31 (31 * sint w + sint (scast (scast v :: 32 word) :: 64 word))"
    using take_bit_32_step [of w "scast (scast v :: 32 word)"]
    by (simp add: signed_take_bit_eq_iff_take_bit_eq)
  also have "\<dots> = signed_take_bit 31 (31 * sint w + sint v)"
    by (simp only: sint_scast_32_64 sint_scast_8_32)
  finally show ?thesis .
qed

lemma sint_byte: "sint (v::byte) = signExtend8to32 v"
proof -
  have b: "0 \<le> uint v" "uint v < 256" using uint_bounded [of v] by simp_all
  have "sint v = (uint v + 128) mod 256 - 128"
    by (simp add: sint_uint signed_take_bit_eq_take_bit_shift take_bit_eq_mod)
  also have "\<dots> = signExtend8to32 v"
  proof (cases "uint v < 128")
    case True
    with b have "(uint v + 128) mod 256 = uint v + 128" by (simp add: mod_pos_pos_trivial)
    with True show ?thesis by (simp add: signExtend8to32_def)
  next
    case False
    have "(uint v + 128) mod 256 = (uint v + 128 - 256) mod 256" by (simp only: minus_mod_self2)
    also from False b have "\<dots> = uint v + 128 - 256" by (simp add: mod_pos_pos_trivial)
    finally show ?thesis using False by (simp add: signExtend8to32_def)
  qed
  finally show ?thesis .
qed

lemma signed_take_bit_31: "signed_take_bit 31 (x::int) = reinterpret_signed32 (x mod 2 ^ 32)"
proof -
  define m where "m = x mod 2 ^ 32"
  have b: "0 \<le> m" "m < 2 ^ 32" by (simp_all add: m_def)
  have "signed_take_bit 31 x = (x + 2 ^ 31) mod 2 ^ 32 - 2 ^ 31"
    by (simp add: signed_take_bit_eq_take_bit_shift take_bit_eq_mod)
  also have "(x + 2 ^ 31) mod 2 ^ 32 = (m + 2 ^ 31) mod 2 ^ 32"
    by (simp add: m_def mod_add_left_eq)
  also have "(m + 2 ^ 31) mod 2 ^ 32 - 2 ^ 31 = reinterpret_signed32 m"
  proof (cases "m < 2 ^ 31")
    case True
    with b have "(m + 2 ^ 31) mod 2 ^ 32 = m + 2 ^ 31" by (simp add: mod_pos_pos_trivial)
    with True show ?thesis by (simp add: reinterpret_signed32_def)
  next
    case False
    have "(m + 2 ^ 31) mod 2 ^ 32 = (m + 2 ^ 31 - 2 ^ 32) mod 2 ^ 32"
      by (simp only: minus_mod_self2)
    also from False b have "\<dots> = m + 2 ^ 31 - 2 ^ 32" by (simp add: mod_pos_pos_trivial)
    finally show ?thesis using False by (simp add: reinterpret_signed32_def)
  qed
  finally show ?thesis by (simp add: m_def)
qed

lemma Hash_step_accumulator: "sint (Hash_step w v) = accumulator_step (sint w) v"
  by (simp only: Hash_step_sint accumulator_step_def signed_take_bit_31 sint_byte)

lemma foldl_Hash_step: "sint (foldl Hash_step w pub) = foldl accumulator_step (sint w) pub"
  by (induction pub arbitrary: w) (simp_all add: Hash_step_accumulator)

lemma Hash_accumulator: "Hash pub = accumulator pub"
  by (simp add: Hash_def accumulator_def foldl_Hash_step)

section \<open>The deterministic ordering\<close>

lemma hashMap_snoc: "sort_hashMap (ps @ [p]) = AList.update (Hash p) p (sort_hashMap ps)"
  by (simp add: sort_hashMap_def)

lemma distinct_hashMap: "distinct (map fst (sort_hashMap ps))"
proof (induction ps rule: rev_induct)
  case Nil
  show ?case by (simp add: sort_hashMap_def)
next
  case (snoc p ps)
  then show ?case by (simp add: hashMap_snoc distinct_update)
qed

lemma map_of_hashMap:
  "map_of (sort_hashMap ps) h =
     (if h \<in> Hash ` set ps then Some (last (filter (\<lambda>p. Hash p = h) ps)) else None)"
proof (induction ps rule: rev_induct)
  case Nil
  show ?case by (simp add: sort_hashMap_def)
next
  case (snoc p ps)
  show ?case
    by (cases "Hash p = h") (auto simp add: hashMap_snoc update_conv' snoc)
qed

lemma keys_hashMap: "set (map fst (sort_hashMap ps)) = Hash ` set ps"
proof -
  have "set (map fst (sort_hashMap ps)) = dom (map_of (sort_hashMap ps))"
    by (simp add: dom_map_of_conv_image_fst)
  also have "\<dots> = Hash ` set ps"
    by (auto simp add: dom_def map_of_hashMap)
  finally show ?thesis .
qed

lemma sort_participants_alt:
  "sort_participants ps =
     map (\<lambda>h. last (filter (\<lambda>p. Hash p = h) ps)) (sorted_list_of_set (Hash ` set ps))"
proof -
  have k: "sort (map fst (sort_hashMap ps)) = sorted_list_of_set (Hash ` set ps)"
    using distinct_hashMap [of ps] keys_hashMap [of ps]
    by (metis sorted_list_of_set_sort_remdups distinct_remdups_id)
  show ?thesis
    unfolding sort_participants_def Let_def k
    by (rule map_cong) (simp_all add: map_of_hashMap)
qed

lemma Hash_last_filter:
  assumes "h \<in> Hash ` set ps"
  shows "Hash (last (filter (\<lambda>p. Hash p = h) ps)) = h"
    and "last (filter (\<lambda>p. Hash p = h) ps) \<in> set ps"
proof -
  from assms have "filter (\<lambda>p. Hash p = h) ps \<noteq> []"
    by (auto simp add: filter_empty_conv)
  then have "last (filter (\<lambda>p. Hash p = h) ps) \<in> set (filter (\<lambda>p. Hash p = h) ps)"
    by (rule last_in_set)
  then show "Hash (last (filter (\<lambda>p. Hash p = h) ps)) = h"
    and "last (filter (\<lambda>p. Hash p = h) ps) \<in> set ps" by simp_all
qed

lemma map_Hash_sort_participants:
  "map Hash (sort_participants ps) = sorted_list_of_set (Hash ` set ps)"
  unfolding sort_participants_alt map_map
  by (rule map_idI) (simp add: Hash_last_filter)

lemma sort_participants_survivor:
  assumes "k \<in> set (sort_participants ps)"
  shows "k \<in> set ps" and "k = last (filter (\<lambda>p. Hash p = Hash k) ps)"
proof -
  from assms obtain h where h: "h \<in> Hash ` set ps" and k: "k = last (filter (\<lambda>p. Hash p = h) ps)"
    by (auto simp add: sort_participants_alt)
  from h k show "k \<in> set ps" by (simp add: Hash_last_filter)
  from h k have "Hash k = h" by (simp add: Hash_last_filter)
  with k show "k = last (filter (\<lambda>p. Hash p = Hash k) ps)" by simp
qed

lemma sort_participants_strict: "sorted_wrt (<) (map Hash (sort_participants ps))"
  by (simp add: map_Hash_sort_participants)

lemma sort_participants_one_per_hash:
  assumes "p \<in> set (sort_participants ps)" and "q \<in> set (sort_participants ps)"
    and "Hash p = Hash q"
  shows "p = q"
proof -
  have "distinct (map Hash (sort_participants ps))"
    by (simp add: map_Hash_sort_participants)
  then have "inj_on Hash (set (sort_participants ps))"
    by (simp add: distinct_map)
  with assms show ?thesis by (simp add: inj_on_def)
qed

section \<open>Evaluation of the hash and the ordering on the example keys\<close>

lemma Hash_keyA: "Hash keyA = 2111290400"
  by (simp add: Hash_def Hash_step_def keyA_def)

lemma Hash_keyB: "Hash keyB = 2111290400"
  by (simp add: Hash_def Hash_step_def keyB_def)

lemma keyA_neq_keyB: "keyA \<noteq> keyB"
  by (simp add: keyA_def keyB_def)

lemma sort_participants_AB: "sort_participants [keyA, keyB] = [keyB]"
  by (simp add: sort_participants_def sort_hashMap_def Hash_keyA Hash_keyB)

lemma sort_participants_BA: "sort_participants [keyB, keyA] = [keyA]"
  by (simp add: sort_participants_def sort_hashMap_def Hash_keyA Hash_keyB)

text \<open>
  C4. The hash of a key is the 32-bit signed fold of its bytes, starting from 1. For every
  list of participants the ordering lists the surviving keys by strictly ascending
  accumulator, so it keeps exactly one key for every accumulator value of the input; the
  survivor of a value is the last participant of the input with that value (a later entry
  overwrites an earlier one); and of two distinct participants with the same accumulator
  at most one is kept.
\<close>

theorem C4_deterministic_order_collisions:
  "Hash key = accumulator key
   \<and> sorted_wrt (<) (map accumulator (sort_participants ps))
   \<and> set (map accumulator (sort_participants ps)) = accumulator ` set ps
   \<and> (\<forall>k \<in> set (sort_participants ps).
         k \<in> set ps \<and> k = last (filter (\<lambda>p. accumulator p = accumulator k) ps))
   \<and> (\<forall>p \<in> set ps. \<forall>q \<in> set ps. p \<noteq> q \<and> accumulator p = accumulator q \<longrightarrow>
         \<not> (p \<in> set (sort_participants ps) \<and> q \<in> set (sort_participants ps)))"
proof -
  have eq: "accumulator = Hash" by (rule ext) (simp add: Hash_accumulator)
  show ?thesis
    unfolding eq
  proof (intro conjI ballI impI notI)
    show "Hash key = Hash key" by (rule refl)
    show "sorted_wrt (<) (map Hash (sort_participants ps))"
      by (rule sort_participants_strict)
    show "set (map Hash (sort_participants ps)) = Hash ` set ps"
      by (simp only: map_Hash_sort_participants set_sorted_list_of_set finite_imageI finite_set)
  next
    fix k assume "k \<in> set (sort_participants ps)"
    then show "k \<in> set ps" and "k = last (filter (\<lambda>p. Hash p = Hash k) ps)"
      by (rule sort_participants_survivor)+
  next
    fix p q
    assume "p \<noteq> q \<and> Hash p = Hash q"
      and "p \<in> set (sort_participants ps) \<and> q \<in> set (sort_participants ps)"
    then show False using sort_participants_one_per_hash [of p ps q] by blast
  qed
qed

theorem C4_deterministic_order_collisions_witness:
  "keyA \<noteq> keyB \<and> accumulator keyA = accumulator keyB
   \<and> sort_participants [keyA, keyB] = [keyB]
   \<and> map accumulator (sort_participants [keyA, keyB]) = [2111290400]
   \<and> \<not> (keyA \<in> set (sort_participants [keyA, keyB]) \<and> keyB \<in> set (sort_participants [keyA, keyB]))"
proof -
  note inst = C4_deterministic_order_collisions [of keyB "[keyA, keyB]"]
  have a: "accumulator keyA = 2111290400"
    using C4_deterministic_order_collisions [of keyA "[]"] Hash_keyA by simp
  from inst have b: "accumulator keyB = 2111290400"
    using Hash_keyB by simp
  from a b have ab: "accumulator keyA = accumulator keyB" by simp
  from inst have col: "\<forall>p \<in> set [keyA, keyB]. \<forall>q \<in> set [keyA, keyB].
      p \<noteq> q \<and> accumulator p = accumulator q \<longrightarrow>
        \<not> (p \<in> set (sort_participants [keyA, keyB]) \<and> q \<in> set (sort_participants [keyA, keyB]))"
    by (elim conjE)
  have inA: "keyA \<in> set [keyA, keyB]" and inB: "keyB \<in> set [keyA, keyB]" by simp_all
  from col [rule_format, OF inA inB] keyA_neq_keyB ab
  have n: "\<not> (keyA \<in> set (sort_participants [keyA, keyB]) \<and> keyB \<in> set (sort_participants [keyA, keyB]))"
    by simp
  have m: "map accumulator (sort_participants [keyA, keyB]) = [2111290400]"
    by (simp add: sort_participants_AB b)
  from keyA_neq_keyB ab sort_participants_AB m n show ?thesis by (intro conjI)
qed

section \<open>The root group id\<close>

lemma sort_participants_set_cong:
  assumes inj: "inj_on Hash (set ps)" and eq: "set qs = set ps"
  shows "sort_participants qs = sort_participants ps"
proof -
  have "last (filter (\<lambda>p. Hash p = h) qs) = last (filter (\<lambda>p. Hash p = h) ps)"
    if h: "h \<in> Hash ` set ps" for h
  proof -
    from h eq have hq: "h \<in> Hash ` set qs" by simp
    have "last (filter (\<lambda>p. Hash p = h) qs) \<in> set ps"
      using Hash_last_filter(2) [OF hq] eq by simp
    moreover have "last (filter (\<lambda>p. Hash p = h) ps) \<in> set ps"
      by (rule Hash_last_filter(2) [OF h])
    moreover have "Hash (last (filter (\<lambda>p. Hash p = h) qs)) = Hash (last (filter (\<lambda>p. Hash p = h) ps))"
      by (simp only: Hash_last_filter(1) [OF hq] Hash_last_filter(1) [OF h])
    ultimately show ?thesis using inj by (simp add: inj_on_def)
  qed
  then show ?thesis
    unfolding sort_participants_alt eq by (intro map_cong refl) simp
qed

lemma rlp_Encode_keyA:
  "rlp_Encode (GoSlice (map GoBytes [keyA])) = Inr
    [225, 160, 0, 0, 0, 0, 0, 0, 0, 0, 0, 0, 0, 0, 0, 0, 0, 0, 0, 0, 0, 0, 0, 0, 0,
     0, 0, 0, 0, 0, 0, 0, 0, 31]"
  by (simp add: keyA_def rlp_bytes_def rlp_header_def)

lemma rlp_Encode_keyB:
  "rlp_Encode (GoSlice (map GoBytes [keyB])) = Inr
    [225, 160, 0, 0, 0, 0, 0, 0, 0, 0, 0, 0, 0, 0, 0, 0, 0, 0, 0, 0, 0, 0, 0, 0, 0,
     0, 0, 0, 0, 0, 0, 0, 1, 0]"
  by (simp add: keyB_def rlp_bytes_def rlp_header_def)

lemma keccak256_empty:
  "keccak256 [] =
    [0xc5, 0xd2, 0x46, 0x01, 0x86, 0xf7, 0x23, 0x3c, 0x92, 0x7e, 0x7d, 0xb2, 0xdc, 0xc7, 0x03, 0xc0,
     0xe5, 0x00, 0xb6, 0x53, 0xca, 0x82, 0x27, 0x3b, 0x7b, 0xfa, 0xd8, 0x04, 0x5d, 0x85, 0xa4, 0x70]"
  by code_simp

lemma keccak256_rlp_keyA:
  "keccak256
    [225, 160, 0, 0, 0, 0, 0, 0, 0, 0, 0, 0, 0, 0, 0, 0, 0, 0, 0, 0, 0, 0, 0, 0, 0,
     0, 0, 0, 0, 0, 0, 0, 0, 31] =
    [151, 170, 21, 223, 70, 36, 224, 71, 143, 16, 75, 203, 157, 125, 112, 76, 121,
     212, 52, 7, 228, 252, 8, 24, 125, 252, 237, 184, 38, 246, 58, 136]"
  by code_simp

lemma keccak256_rlp_keyB:
  "keccak256
    [225, 160, 0, 0, 0, 0, 0, 0, 0, 0, 0, 0, 0, 0, 0, 0, 0, 0, 0, 0, 0, 0, 0, 0, 0,
     0, 0, 0, 0, 0, 0, 0, 1, 0] =
    [171, 227, 146, 197, 111, 161, 44, 95, 2, 150, 100, 180, 29, 55, 189, 183, 192,
     194, 78, 17, 146, 192, 27, 15, 62, 244, 202, 69, 105, 164, 51, 84]"
  by code_simp

lemma EncodeToString_digest_keyA:
  "EncodeToString
    [151, 170, 21, 223, 70, 36, 224, 71, 143, 16, 75, 203, 157, 125, 112, 76, 121,
     212, 52, 7, 228, 252, 8, 24, 125, 252, 237, 184, 38, 246, 58, 136] =
    ''l6oV30Yk4EePEEvLnX1wTHnUNAfk/AgYffztuCb2Oog=''"
  by (simp add: b64_char_def encodeStd_def)

lemma EncodeToString_digest_keyB:
  "EncodeToString
    [171, 227, 146, 197, 111, 161, 44, 95, 2, 150, 100, 180, 29, 55, 189, 183, 192,
     194, 78, 17, 146, 192, 27, 15, 62, 244, 202, 69, 105, 164, 51, 84] =
    ''q+OSxW+hLF8ClmS0HTe9t8DCThGSwBsPPvTKRWmkM1Q=''"
  by (simp add: b64_char_def encodeStd_def)

lemma ID_FindRootPrivacyGroup_AB:
  "ID (FindRootPrivacyGroup [keyA, keyB]) = ''q+OSxW+hLF8ClmS0HTe9t8DCThGSwBsPPvTKRWmkM1Q=''"
  by (simp only: FindRootPrivacyGroup_def Let_def sort_participants_AB rlpHash_privacy_def
      rlp_Encode_keyB keccak256_rlp_keyB EncodeToString_digest_keyB sum.case Group.simps)

lemma ID_FindRootPrivacyGroup_BA:
  "ID (FindRootPrivacyGroup [keyB, keyA]) = ''l6oV30Yk4EePEEvLnX1wTHnUNAfk/AgYffztuCb2Oog=''"
  by (simp only: FindRootPrivacyGroup_def Let_def sort_participants_BA rlpHash_privacy_def
      rlp_Encode_keyA keccak256_rlp_keyA EncodeToString_digest_keyA sum.case Group.simps)

lemma Hash_README_keys:
  "Hash privateFrom_key = -487930036" "Hash privateFor1_key = 2130677321" "Hash privateFor2_key = 568079351"
  by (simp_all add: Hash_def Hash_step_def privateFrom_key_def privateFor1_key_def
      privateFor2_key_def)

text \<open>
  C2 (as amended). For every non-empty list of participants on which the hash is injective
  (no two distinct keys have the same accumulator) and every permutation of it,
  \<^verbatim>\<open>FindRootPrivacyGroup\<close> returns the same group id.
\<close>

theorem C2_root_group_id_permutation:
  assumes "participants \<noteq> []"
    and "mset permuted = mset participants"
    and "inj_on Hash (set participants)"
  shows "ID (FindRootPrivacyGroup permuted) = ID (FindRootPrivacyGroup participants)"
proof -
  from assms(2) have "set permuted = set participants" by (rule mset_eq_setD)
  with assms(3) have "sort_participants permuted = sort_participants participants"
    by (rule sort_participants_set_cong)
  then show ?thesis by (simp add: FindRootPrivacyGroup_def)
qed

theorem C2_root_group_id_permutation_witness:
  "ID (FindRootPrivacyGroup [privateFor2_key, privateFrom_key, privateFor1_key]) =
   ID (FindRootPrivacyGroup [privateFrom_key, privateFor1_key, privateFor2_key])"
proof -
  have "[privateFrom_key, privateFor1_key, privateFor2_key] \<noteq> []" by simp
  moreover have "mset [privateFor2_key, privateFrom_key, privateFor1_key] =
      mset [privateFrom_key, privateFor1_key, privateFor2_key]" by simp
  moreover have "inj_on Hash (set [privateFrom_key, privateFor1_key, privateFor2_key])"
    by (auto simp add: inj_on_def Hash_README_keys)
  ultimately show ?thesis by (rule C2_root_group_id_permutation)
qed

text \<open>
  The claim as stated fails when two participants collide: the two orders of \<open>keyA\<close> and
  \<open>keyB\<close> give different group ids, since the key supplied last survives.
\<close>

theorem C2_root_group_id_counterexample:
  "[keyA, keyB] \<noteq> [] \<and> mset [keyB, keyA] = mset [keyA, keyB]
   \<and> ID (FindRootPrivacyGroup [keyB, keyA]) \<noteq> ID (FindRootPrivacyGroup [keyA, keyB])"
  by (simp add: ID_FindRootPrivacyGroup_AB ID_FindRootPrivacyGroup_BA)

section \<open>Construction of a transaction\<close>

lemma slice_bytes_append_arrays:
  "s_array b < length (arrays st) \<Longrightarrow> slice_bytes (st\<lparr>arrays := arrays st @ xs\<rparr>) b = slice_bytes st b"
  by (simp add: slice_bytes_def nth_append)

lemma slice_bytes_transactions_update [simp]:
  "slice_bytes (st\<lparr>transactions := ts\<rparr>) b = slice_bytes st b"
  by (simp add: slice_bytes_def)

lemma slice_bytes_CopyBytes:
  "CopyBytes st b = (b', st') \<Longrightarrow> slice_bytes st' b' = slice_bytes st b"
  by (auto simp add: CopyBytes_def slice_bytes_def)

lemma newTransaction_result:
  assumes "newTransaction st nonce to amount gasLimit gasPrice data privateFrom privateFor = (tx, st')"
  shows "tx = length (transactions st)"
    and "transactions st' = transactions st @
          [\<lparr>AccountNonce = nonce,
            Price = (case gasPrice of None \<Rightarrow> 0 | Some g \<Rightarrow> g),
            GasLimit = gasLimit, Recipient = to,
            Amount = (case amount of None \<Rightarrow> 0 | Some a \<Rightarrow> a),
            Payload = (if s_len data > 0 then \<lparr>s_array = length (arrays st), s_offset = 0, s_len = s_len data\<rparr> else data),
            V = 0, R = 0, S = 0, PrivateFrom = privateFrom, PrivateFor = privateFor,
            Restriction = ''restricted''\<rparr>]"
    and "arrays st' = (if s_len data > 0 then arrays st @ [slice_bytes st data] else arrays st)"
  using assms
  by (auto simp add: newTransaction_def CopyBytes_def Let_def split: option.splits if_splits)

text \<open>
  C7. \<^verbatim>\<open>newTransaction\<close> returns a transaction whose value and gas price are zero when the
  argument is nil (and the argument otherwise), whose payload holds the supplied bytes and
  is a copy of them: a later write of the caller through the supplied slice does not change
  the payload; whose restriction is the string \<open>restricted\<close>; and whose \<open>v\<close>, \<open>r\<close> and \<open>s\<close> are
  zero.
\<close>

theorem C7_newTransaction:
  assumes new: "newTransaction st nonce to amount gasLimit gasPrice data privateFrom privateFor = (tx, st')"
    and valid: "valid_slice st data"
  shows "\<exists>d. deref st' tx = Some d
     \<and> Amount d = (case amount of None \<Rightarrow> 0 | Some a \<Rightarrow> a)
     \<and> Price d = (case gasPrice of None \<Rightarrow> 0 | Some g \<Rightarrow> g)
     \<and> slice_bytes st' (Payload d) = slice_bytes st data
     \<and> (\<forall>i v. slice_bytes (write_slice st' data i v) (Payload d) = slice_bytes st data)
     \<and> Restriction d = ''restricted'' \<and> V d = 0 \<and> R d = 0 \<and> S d = 0"
proof -
  note r = newTransaction_result [OF new]
  let ?d = "transactions st' ! tx"
  have d: "deref st' tx = Some ?d" by (simp add: deref_def r)
  have fields: "Amount ?d = (case amount of None \<Rightarrow> 0 | Some a \<Rightarrow> a)"
    "Price ?d = (case gasPrice of None \<Rightarrow> 0 | Some g \<Rightarrow> g)"
    "Restriction ?d = ''restricted''" "V ?d = 0" "R ?d = 0" "S ?d = 0"
    by (simp_all add: r)
  have pl: "Payload ?d = (if s_len data > 0 then \<lparr>s_array = length (arrays st), s_offset = 0, s_len = s_len data\<rparr> else data)"
    by (simp add: r)
  from valid have a: "s_array data < length (arrays st)" by (simp add: valid_slice_def)
  have p1: "slice_bytes st' (Payload ?d) = slice_bytes st data"
    using a by (auto simp add: pl slice_bytes_def r nth_append)
  have p2: "slice_bytes (write_slice st' data i v) (Payload ?d) = slice_bytes st data" for i v
    using a by (auto simp add: pl slice_bytes_def write_slice_def r nth_append nth_list_update)
  from d fields p1 p2 show ?thesis by blast
qed

text \<open>
  An instance: the payload is a copy of two bytes of an array of the caller; after the
  caller overwrites the first of them, the caller's slice has changed and the payload has
  not.
\<close>

theorem C7_newTransaction_witness:
  "valid_slice example_store \<lparr>s_array = 0, s_offset = 2, s_len = 2\<rparr>
   \<and> (\<exists>tx st' d. newTransaction example_store 8 None None 3000000 None
                     \<lparr>s_array = 0, s_offset = 2, s_len = 2\<rparr> \<lparr>s_array = 2, s_offset = 0, s_len = 32\<rparr> []
                   = (tx, st')
         \<and> deref st' tx = Some d \<and> Amount d = 0 \<and> Price d = 0
         \<and> slice_bytes st' (Payload d) = [0xb9, 0x3f]
         \<and> slice_bytes (write_slice st' \<lparr>s_array = 0, s_offset = 2, s_len = 2\<rparr> 0 0xff) (Payload d) = [0xb9, 0x3f]
         \<and> slice_bytes (write_slice st' \<lparr>s_array = 0, s_offset = 2, s_len = 2\<rparr> 0 0xff)
               \<lparr>s_array = 0, s_offset = 2, s_len = 2\<rparr> = [0xff, 0x3f]
         \<and> Restriction d = ''restricted'' \<and> V d = 0 \<and> R d = 0 \<and> S d = 0)"
proof -
  let ?data = "\<lparr>s_array = 0, s_offset = 2, s_len = 2\<rparr>"
  let ?pf = "\<lparr>s_array = 2, s_offset = 0, s_len = 32\<rparr>"
  have v: "valid_slice example_store ?data"
    by (simp add: valid_slice_def example_store_def)
  obtain tx st' where n: "newTransaction example_store 8 None None 3000000 None ?data ?pf [] = (tx, st')"
    by (cases "newTransaction example_store 8 None None 3000000 None ?data ?pf []")
  have sb: "slice_bytes example_store ?data = [0xb9, 0x3f]"
    by (simp add: slice_bytes_def example_store_def)
  have ar: "arrays st' = arrays example_store @ [[0xb9, 0x3f]]"
    using newTransaction_result(3) [OF n] by (simp add: sb)
  have w: "slice_bytes (write_slice st' ?data 0 0xff) ?data = [0xff, 0x3f]"
    by (simp add: slice_bytes_def write_slice_def ar example_store_def)
  from C7_newTransaction [OF n v] obtain d where
    "deref st' tx = Some d" "Amount d = 0" "Price d = 0"
    "slice_bytes st' (Payload d) = [0xb9, 0x3f]"
    "slice_bytes (write_slice st' ?data 0 0xff) (Payload d) = [0xb9, 0x3f]"
    "Restriction d = ''restricted''" "V d = 0" "R d = 0" "S d = 0"
    unfolding sb by auto
  with v n w show ?thesis by blast
qed

section \<open>The signing digest\<close>

lemma rlp_Encode_list_bytes:
  "rlp_Encode_list (map GoBytes bs) = Inr (concat (map rlp_bytes bs))"
  by (induction bs) simp_all

lemma rlp_Encode_list_slices:
  "rlp_Encode_list (map (\<lambda>b. GoBytes (f b)) bs) = Inr (concat (map (\<lambda>b. rlp_bytes (f b)) bs))"
  by (induction bs) simp_all

lemma nat_uint_eq_unat: "nat (uint (w :: 64 word)) = unat w"
  by simp

lemma be_bytes_0: "be_bytes 0 = []"
  by (simp add: be_bytes.simps)

lemma rlp_bytes_Nil: "rlp_bytes [] = [0x80]"
  by (simp add: rlp_bytes_def rlp_header_def)

lemma length_example_signature: "length example_signature = 65"
  by (simp add: example_signature_def)

lemma last_example_signature: "example_signature ! 64 = 0"
  by (simp add: example_signature_def nth_append)

lemma deref_example: "deref example_store 0 = Some (transactions example_store ! 0)"
  by (simp add: deref_def example_store_def)

lemma hash_example: "\<exists>h. hash example_store 0 2018 = Inr h"
  by (simp add: hash_def deref_example)

text \<open>
  C3 (as amended). For every transaction and chain id whose gas price, value and chain id
  are not negative, the signing digest is the Keccak-256 digest of the canonical encoding
  of the sequence nonce, gas price, gas limit, recipient (the empty string when absent),
  value, payload, chain id, 0, 0, privateFrom, privateFor as a list of byte strings,
  restriction.
\<close>

theorem C3_signing_digest:
  assumes "deref st tx = Some d" and "0 \<le> Price d" and "0 \<le> Amount d" and "0 \<le> chainID"
  shows "\<exists>dg. signingDigest (uint (AccountNonce d)) (Price d) (uint (GasLimit d)) (Recipient d)
             (Amount d) (slice_bytes st (Payload d)) chainID (slice_bytes st (PrivateFrom d))
             (map (slice_bytes st) (PrivateFor d)) (bytes_of_string (Restriction d)) = Some dg
           \<and> hash st tx chainID = Inr dg"
  using assms
  by (cases "Recipient d")
    (simp_all add: signingDigest_def rlp_integer_def hash_def rlpHash_def
      rlp_Encode_list_slices be_bytes_0 rlp_bytes_Nil Let_def comp_def)

theorem C3_signing_digest_witness:
  "\<exists>dg. signingDigest 7 0 3000000 None 0 [0x01, 0x21, 0xb9, 0x3f] 2018 privateFrom_key
           [privateFor1_key, privateFor2_key] (bytes_of_string ''restricted'') = Some dg
        \<and> hash example_store 0 2018 = Inr dg"
  using C3_signing_digest [OF deref_example, of 2018]
  by (simp add: example_store_def slice_bytes_def privateFrom_key_def privateFor1_key_def privateFor2_key_def)

text \<open>
  The claim as stated fails for a negative chain id: the sequence has no encoding, the
  encoder fails, its error is ignored, and the digest is that of the empty input.
\<close>

theorem C3_signing_digest_counterexample:
  "signingDigest 7 0 3000000 None 0 [0x01, 0x21, 0xb9, 0x3f] (- 1) privateFrom_key
           [privateFor1_key, privateFor2_key] (bytes_of_string ''restricted'') = None
   \<and> hash example_store 0 (- 1) = Inr (keccak256 [])"
  by (simp add: signingDigest_def rlp_integer_def hash_def deref_def rlpHash_def example_store_def)

section \<open>Signing\<close>

lemma SetBytes_single: "SetBytes [b] = uint b"
  by (simp add: SetBytes_def)

lemma withSignature_ok:
  assumes "deref st tx = Some d" and "length sig = 65"
  shows "withSignature st tx sig chainID =
     Inr (length (transactions st),
          st\<lparr>transactions := transactions st @
            [d\<lparr>R := SetBytes (take 32 sig), S := SetBytes (take 32 (drop 32 sig)),
               V := uint (Uint64 (uint (sig ! 64 + 27)) + Uint64 chainID * 2 + 8)\<rparr>]\<rparr>)"
  using assms
  by (simp add: withSignature_def signatureValues_def SignatureLength_def SetBytes_single Let_def)

lemma withSignature_wrong_size:
  assumes "length sig \<noteq> 65"
  shows "withSignature st tx sig chainID = Inl (Panic (WrongSignatureSize (length sig) 65))"
  using assms
  by (simp add: withSignature_def signatureValues_def SignatureLength_def)

lemma uint_newV:
  assumes "0 \<le> a" and "0 \<le> c" and "a + c * 2 + 8 < 2 ^ 64"
  shows "uint (Uint64 a + Uint64 c * 2 + 8) = a + c * 2 + 8"
proof -
  have "Uint64 a + Uint64 c * 2 + 8 = (word_of_int (a + c * 2 + 8) :: 64 word)"
    using assms by (simp add: Uint64_def)
  also have "uint \<dots> = (a + c * 2 + 8) mod 2 ^ 64"
    by (simp only: uint_word_of_int) simp
  also have "\<dots> = a + c * 2 + 8"
    using assms by (intro mod_pos_pos_trivial) simp_all
  finally show ?thesis .
qed

lemma uint_byte_plus_27:
  assumes "uint (b :: byte) + 27 < 256"
  shows "uint (b + 27) = uint b + 27"
proof -
  have "uint (b + 27) = (uint b + 27) mod 256"
    by (simp add: uint_word_ariths)
  also have "\<dots> = uint b + 27"
    using assms by (intro mod_pos_pos_trivial) simp_all
  finally show ?thesis .
qed

text \<open>
  C1 (as amended). For every transaction, every chain id that is not negative and every
  65-byte signature whose last byte \<open>b\<close> is at most 228 (so that \<open>b + 27\<close> is a byte), if
  \<open>(b + 27) + chainId * 2 + 8\<close> is below \<open>2^64\<close> then signing succeeds and the stored \<open>v\<close> is
  \<open>(b + 27) + chainId * 2 + 8\<close>.
\<close>

theorem C1_stored_v:
  assumes "deref st tx = Some d" and "length sig = 65"
    and "uint (sig ! 64) + 27 < 256" and "0 \<le> chainID"
    and "(uint (sig ! 64) + 27) + chainID * 2 + 8 < 2 ^ 64"
  shows "stored_V (withSignature st tx sig chainID) = Some ((uint (sig ! 64) + 27) + chainID * 2 + 8)"
proof -
  have "uint (Uint64 (uint (sig ! 64 + 27)) + Uint64 chainID * 2 + 8)
      = (uint (sig ! 64) + 27) + chainID * 2 + 8"
    using assms(3-5) by (simp add: uint_byte_plus_27 uint_newV)
  then show ?thesis
    by (simp add: stored_V_def withSignature_ok [OF assms(1,2)] deref_def)
qed

text \<open>
  For the chain id 2018 and the recovery id 0, that is the recovery byte 27, the stored \<open>v\<close>
  is 4071.
\<close>

theorem C1_stored_v_witness:
  "stored_V (withSignature example_store 0 example_signature 2018) = Some 4071"
  using C1_stored_v [OF deref_example length_example_signature, of 2018]
  by (simp add: last_example_signature)

text \<open>
  The claim as stated fails for a large chain id: the sum is computed on 64-bit unsigned
  integers, so for the chain id \<open>2^63\<close> the stored \<open>v\<close> is 35.
\<close>

theorem C1_stored_v_counterexample:
  "length example_signature = 65
   \<and> stored_V (withSignature example_store 0 example_signature (2 ^ 63)) = Some 35
   \<and> (35 :: int) \<noteq> (uint (example_signature ! 64) + 27) + 2 ^ 63 * 2 + 8"
  by (simp add: stored_V_def withSignature_ok [OF deref_example length_example_signature]
      length_example_signature last_example_signature deref_def Uint64_def)

text \<open>
  C5 (as amended). When the signing primitive returns a raw signature that is not exactly
  65 bytes long, \<^verbatim>\<open>SignTx\<close> panics with the two lengths; no error result is returned to the
  caller. It returns a signed transaction exactly when the signature is 65 bytes long.
\<close>

theorem C5_wrong_signature_size:
  assumes "hash st tx chainID = Inr h" and "Sign h prv = Inr sig"
  shows "(length sig \<noteq> 65 \<longrightarrow>
            SignTx Sign st tx chainID prv = Inl (Panic (WrongSignatureSize (length sig) 65)))
       \<and> ((\<exists>tx' st'. SignTx Sign st tx chainID prv = Inr (tx', st')) \<longleftrightarrow> length sig = 65)"
proof -
  from assms(1) obtain d where d: "deref st tx = Some d"
    by (auto simp add: hash_def split: option.splits)
  have s: "SignTx Sign st tx chainID prv = withSignature st tx sig chainID"
    using assms by (simp add: SignTx_def)
  show ?thesis
  proof (cases "length sig = 65")
    case True
    then show ?thesis by (simp add: s withSignature_ok [OF d])
  next
    case False
    then show ?thesis by (simp add: s withSignature_wrong_size)
  qed
qed

theorem C5_wrong_signature_size_witness:
  "SignTx short_signer example_store 0 2018 () = Inl (Panic (WrongSignatureSize 0 65))
   \<and> (\<exists>tx' st'. SignTx example_signer example_store 0 2018 () = Inr (tx', st'))"
proof -
  from hash_example obtain h where h: "hash example_store 0 2018 = Inr h" ..
  have s: "short_signer h () = Inr []" and e: "example_signer h () = Inr example_signature"
    by (simp_all add: short_signer_def example_signer_def)
  from C5_wrong_signature_size [where Sign = short_signer and prv = "()", OF h s]
    C5_wrong_signature_size [where Sign = example_signer and prv = "()", OF h e]
  show ?thesis by (simp add: length_example_signature)
qed

text \<open>
  The claim as stated fails: with a primitive that returns the empty signature the call
  panics, it does not return an error.
\<close>

theorem C5_wrong_signature_size_counterexample:
  "SignTx short_signer example_store 0 2018 () = Inl (Panic (WrongSignatureSize 0 65))
   \<and> \<not> (\<exists>e. SignTx short_signer example_store 0 2018 () = Inl (Error e))"
  by (simp add: SignTx_def hash_def deref_example short_signer_def withSignature_wrong_size)

text \<open>
  C6. For every successful call of \<^verbatim>\<open>SignTx\<close> the result is a new transaction object: its
  address differs from that of the input and was not allocated before the call; the
  backing arrays and every transaction object of the store before the call, the input
  among them, are unchanged; and the unsigned fields of the result (nonce, gas price, gas
  limit, recipient, value, payload, privateFrom, privateFor, restriction) equal those of
  the input.
\<close>

theorem C6_signing_returns_new_instance:
  assumes "SignTx Sign st tx chainID prv = Inr (tx', st')"
  shows "tx' \<noteq> tx \<and> tx < length (transactions st) \<and> tx' = length (transactions st)
       \<and> arrays st' = arrays st
       \<and> take (length (transactions st)) (transactions st') = transactions st
       \<and> (\<exists>d d'. deref st tx = Some d \<and> deref st' tx = Some d \<and> deref st' tx' = Some d'
            \<and> AccountNonce d' = AccountNonce d \<and> Price d' = Price d
            \<and> GasLimit d' = GasLimit d \<and> Recipient d' = Recipient d
            \<and> Amount d' = Amount d \<and> Payload d' = Payload d
            \<and> PrivateFrom d' = PrivateFrom d \<and> PrivateFor d' = PrivateFor d
            \<and> Restriction d' = Restriction d
            \<and> slice_bytes st' (Payload d') = slice_bytes st (Payload d))"
proof -
  from assms obtain h sig where h: "hash st tx chainID = Inr h" and sg: "Sign h prv = Inr sig"
    and w: "withSignature st tx sig chainID = Inr (tx', st')"
    by (auto simp add: SignTx_def split: sum.splits)
  from h obtain d where d: "deref st tx = Some d"
    by (auto simp add: hash_def split: option.splits)
  from w have len: "length sig = 65"
    using withSignature_wrong_size [of sig st tx chainID] by (cases "length sig = 65") auto
  from d have lt: "tx < length (transactions st)" and dd: "d = transactions st ! tx"
    by (auto simp add: deref_def split: if_splits)
  from w have r: "tx' = length (transactions st)"
    "st' = st\<lparr>transactions := transactions st @
            [d\<lparr>R := SetBytes (take 32 sig), S := SetBytes (take 32 (drop 32 sig)),
               V := uint (Uint64 (uint (sig ! 64 + 27)) + Uint64 chainID * 2 + 8)\<rparr>]\<rparr>"
    by (simp_all add: withSignature_ok [OF d len])
  show ?thesis
    using lt d by (simp add: r deref_def nth_append slice_bytes_def)
qed

theorem C6_signing_returns_new_instance_witness:
  "\<exists>st'. SignTx example_signer example_store 0 2018 () = Inr (1, st')
     \<and> arrays st' = arrays example_store
     \<and> take 1 (transactions st') = transactions example_store
     \<and> deref st' 0 = deref example_store 0
     \<and> map_option Payload (deref st' 1) = map_option Payload (deref example_store 0)
     \<and> map_option AccountNonce (deref st' 1) = Some 7"
proof -
  from hash_example obtain h where h: "hash example_store 0 2018 = Inr h" ..
  have "SignTx example_signer example_store 0 2018 () = withSignature example_store 0 example_signature 2018"
    by (simp add: SignTx_def h example_signer_def)
  also have "\<dots> = Inr (length (transactions example_store),
      example_store\<lparr>transactions := transactions example_store @
        [(transactions example_store ! 0)\<lparr>R := SetBytes (take 32 example_signature),
           S := SetBytes (take 32 (drop 32 example_signature)),
           V := uint (Uint64 (uint (example_signature ! 64 + 27)) + Uint64 2018 * 2 + 8)\<rparr>]\<rparr>)"
    by (rule withSignature_ok [OF deref_example length_example_signature])
  also have "length (transactions example_store) = 1" by (simp add: example_store_def)
  finally obtain st' where s: "SignTx example_signer example_store 0 2018 () = Inr (1, st')"
    by blast
  from C6_signing_returns_new_instance [OF s] obtain d d' where
    a: "arrays st' = arrays example_store"
    and t: "take (length (transactions example_store)) (transactions st') = transactions example_store"
    and d: "deref example_store 0 = Some d" "deref st' 0 = Some d" "deref st' 1 = Some d'"
    and f: "AccountNonce d' = AccountNonce d" "Payload d' = Payload d"
    by auto
  from d(1) have "AccountNonce d = 7" by (auto simp add: deref_def example_store_def)
  with a t d f s show ?thesis by (simp add: example_store_def)
qed

section \<open>The request of the group lookup\<close>


lemma then_do_Inr [simp]: "then_do (Inr a) f = f a"
  by (simp add: then_do_def)

lemma then_do_Inl [simp]: "then_do (Inl e) f = Inl e"
  by (simp add: then_do_def)

lemma assert_string_simps [simp]:
  "assert_string (Some (AnyString s)) = Inr s"
  "assert_string None = Inl (Panic TypeAssertion)"
  by (simp_all add: assert_string_def)

lemma assert_slice_simps [simp]:
  "assert_slice (Some (AnySlice xs)) = Inr xs"
  "assert_slice None = Inl (Panic TypeAssertion)"
  by (simp_all add: assert_slice_def)

lemma assert_bytes_simps [simp]:
  "assert_bytes (Some (AnyBytes b)) = Inr b"
  by (simp_all add: assert_bytes_def)






section \<open>The mapping of a receipt response\<close>

lemma rejected_simps [simp]:
  "rejected decode (AnyBytes b) = isl (decode b)"
  "rejected decode AnyNil = False"
  "rejected decode (AnyString s) = False"
  "rejected decode (AnySlice xs) = False"
  "rejected decode (AnyMap m) = False"
  "rejected decode AnyOther = False"
  by (simp_all add: rejected_def)




lemma MarshalPrivateReceipt_logs_missing:
  assumes "r ''logs'' = None"
  shows "MarshalPrivateReceipt decode r =
     then_do (receipt_before_logs r) (\<lambda>t. Inl (Error (ErrorText ''logs not found'')))"
  using assms by (simp add: MarshalPrivateReceipt_def split_def)



lemma optional_stringE:
  assumes "optional_string r k"
  obtains "r k = None" | s where "r k = Some (AnyString s)"
  using assms by (auto simp add: optional_string_def split: option.splits go_any.splits)

lemma string_entryE:
  assumes "string_entry r k"
  obtains s where "r k = Some (AnyString s)"
  using assms by (auto simp add: string_entry_def split: option.splits go_any.splits)

lemma optional_stage:
  assumes "optional_string r k"
  shows "\<exists>a. (case r k of None \<Rightarrow> Inr d | Some v \<Rightarrow> then_do (assert_string (Some v)) (\<lambda>s. Inr (f s))) = Inr a"
  using assms by (rule optional_stringE) simp_all

lemma decode_privateFor_strings:
  "list_all (\<lambda>v. case v of AnyString s \<Rightarrow> True | _ \<Rightarrow> False) vs \<Longrightarrow>
     \<exists>keys. decode_privateFor vs acc = Inr keys"
proof (induction vs arbitrary: acc)
  case Nil
  show ?case by simp
next
  case (Cons v vs)
  then show ?case
    by (cases v) (auto split: sum.splits)
qed

lemma receipt_before_logs_commitmentHash:
  assumes "r ''commitmentHash'' = None"
    and "optional_string r ''contractAddress''" and "optional_string r ''output''"
  shows "receipt_before_logs r = Inl (Error (ErrorText ''commitmentHash not found''))"
proof -
  from optional_stage [OF assms(2), where d = "replicate 20 0" and f = HexToAddress] obtain a where
    a: "(case r ''contractAddress'' of None \<Rightarrow> Inr (replicate 20 0)
          | Some v \<Rightarrow> then_do (assert_string (Some v)) (\<lambda>s. Inr (HexToAddress s))) = Inr a"
    by blast
  from optional_stage [OF assms(3), where d = "[]" and f = "\<lambda>s. fst (hexutil_Decode s)"] obtain b where
    b: "(case r ''output'' of None \<Rightarrow> Inr []
          | Some v \<Rightarrow> then_do (assert_string (Some v)) (\<lambda>s. Inr (fst (hexutil_Decode s)))) = Inr b"
    by blast
  show ?thesis
    unfolding receipt_before_logs_def a b by (simp add: assms(1))
qed

lemma receipt_before_logs_transactionHash:
  assumes "r ''transactionHash'' = None"
    and "optional_string r ''contractAddress''" and "optional_string r ''output''"
    and "string_entry r ''commitmentHash''"
  shows "receipt_before_logs r = Inl (Error (ErrorText ''transactionHash not found''))"
proof -
  from optional_stage [OF assms(2), where d = "replicate 20 0" and f = HexToAddress] obtain a where
    a: "(case r ''contractAddress'' of None \<Rightarrow> Inr (replicate 20 0)
          | Some v \<Rightarrow> then_do (assert_string (Some v)) (\<lambda>s. Inr (HexToAddress s))) = Inr a"
    by blast
  from optional_stage [OF assms(3), where d = "[]" and f = "\<lambda>s. fst (hexutil_Decode s)"] obtain b where
    b: "(case r ''output'' of None \<Rightarrow> Inr []
          | Some v \<Rightarrow> then_do (assert_string (Some v)) (\<lambda>s. Inr (fst (hexutil_Decode s)))) = Inr b"
    by blast
  from assms(4) obtain ch where ch: "r ''commitmentHash'' = Some (AnyString ch)"
    by (rule string_entryE)
  show ?thesis
    unfolding receipt_before_logs_def a b by (simp add: assms(1) ch)
qed

lemma receipt_before_logs_well_formed:
  assumes "well_formed_before_logs r"
  shows "\<exists>t. receipt_before_logs r = Inr t"
proof -
  from assms have o: "optional_string r ''contractAddress''" "optional_string r ''output''"
    "optional_string r ''status''"
    and s: "string_entry r ''commitmentHash''" "string_entry r ''transactionHash''"
    and ke: "key_entry r ''privateFrom''" and se: "strings_entry r ''privateFor''"
    by (simp_all add: well_formed_before_logs_def)
  from optional_stage [OF o(1), where d = "replicate 20 0" and f = HexToAddress] obtain a where
    a: "(case r ''contractAddress'' of None \<Rightarrow> Inr (replicate 20 0)
          | Some v \<Rightarrow> then_do (assert_string (Some v)) (\<lambda>s. Inr (HexToAddress s))) = Inr a"
    by blast
  from optional_stage [OF o(2), where d = "[]" and f = "\<lambda>s. fst (hexutil_Decode s)"] obtain b where
    b: "(case r ''output'' of None \<Rightarrow> Inr []
          | Some v \<Rightarrow> then_do (assert_string (Some v)) (\<lambda>s. Inr (fst (hexutil_Decode s)))) = Inr b"
    by blast
  from optional_stage [OF o(3), where d = "0 :: 64 word" and f = "\<lambda>s. if s = ''0x1'' then 1 else 0"] obtain c where
    c: "(case r ''status'' of None \<Rightarrow> Inr 0
          | Some v \<Rightarrow> then_do (assert_string (Some v)) (\<lambda>s. Inr (if s = ''0x1'' then 1 else 0))) = Inr (c :: 64 word)"
    by blast
  from s(1) obtain ch where ch: "r ''commitmentHash'' = Some (AnyString ch)"
    by (rule string_entryE)
  from s(2) obtain th where th: "r ''transactionHash'' = Some (AnyString th)"
    by (rule string_entryE)
  from ke obtain pf key where pf: "r ''privateFrom'' = Some (AnyString pf)"
    and key: "ToPublicKey pf = Inr key"
    by (cases "r ''privateFrom''")
      (auto simp add: key_entry_def split: go_any.splits sum.splits)
  from se obtain vs where vs: "r ''privateFor'' = Some (AnySlice vs)"
    and strs: "list_all (\<lambda>v. case v of AnyString s \<Rightarrow> True | _ \<Rightarrow> False) vs"
    by (cases "r ''privateFor''")
      (auto simp add: strings_entry_def split: go_any.splits)
  from decode_privateFor_strings [OF strs] obtain keys where
    keys: "decode_privateFor vs [] = Inr keys" by blast
  show ?thesis
    unfolding receipt_before_logs_def a b
    by (simp add: ch th pf key vs keys c)
qed

lemma rejected_decode_nothing: "rejected decode_nothing (AnyBytes b)"
  by (simp add: decode_nothing_def)

lemma ToPublicKey_privateFrom:
  "ToPublicKey ''A1aVtMxLCUHmBVHXoZzzBgPbW/wj5axDpW9X8l91SGo='' = Inr privateFrom_key"
  by (simp add: ToPublicKey_def DecodeString_def decodeMap_def quantum_bytes_def is_newline_def
      privateFrom_key_def)




lemma well_formed_example_no_logs:
  "well_formed_before_logs ((map_of example_response)(''logs'' := None))"
  by (simp add: well_formed_before_logs_def optional_string_def string_entry_def key_entry_def
      strings_entry_def example_response_def ToPublicKey_privateFrom)




text \<open>
  C9 (as amended). A response map that lacks \<^verbatim>\<open>logs\<close> is never mapped to a receipt; when the
  entries read before \<^verbatim>\<open>logs\<close> are well-formed the result is the error \<open>logs not found\<close>.
  Likewise a map that lacks \<^verbatim>\<open>commitmentHash\<close> gives the error \<open>commitmentHash not found\<close> when
  \<^verbatim>\<open>contractAddress\<close> and \<^verbatim>\<open>output\<close> are absent or strings, and a map that lacks
  \<^verbatim>\<open>transactionHash\<close> gives the error \<open>transactionHash not found\<close> when moreover
  \<^verbatim>\<open>commitmentHash\<close> is a string.
\<close>

theorem C9_missing_required_field:
  "(r ''logs'' = None \<longrightarrow> (\<forall>receipt. MarshalPrivateReceipt decode r \<noteq> Inr receipt))
   \<and> (r ''logs'' = None \<and> well_formed_before_logs r \<longrightarrow>
        MarshalPrivateReceipt decode r = Inl (Error (ErrorText ''logs not found'')))
   \<and> (r ''commitmentHash'' = None \<and> optional_string r ''contractAddress''
        \<and> optional_string r ''output'' \<longrightarrow>
        MarshalPrivateReceipt decode r = Inl (Error (ErrorText ''commitmentHash not found'')))
   \<and> (r ''transactionHash'' = None \<and> optional_string r ''contractAddress''
        \<and> optional_string r ''output'' \<and> string_entry r ''commitmentHash'' \<longrightarrow>
        MarshalPrivateReceipt decode r = Inl (Error (ErrorText ''transactionHash not found'')))"
proof (intro conjI impI allI)
  fix receipt :: "'a PrivateReceipt"
  assume "r ''logs'' = None"
  then have "MarshalPrivateReceipt decode r =
      then_do (receipt_before_logs r) (\<lambda>t. Inl (Error (ErrorText ''logs not found'')))"
    by (rule MarshalPrivateReceipt_logs_missing)
  then show "MarshalPrivateReceipt decode r \<noteq> Inr receipt"
    by (cases "receipt_before_logs r") simp_all
next
  assume a: "r ''logs'' = None \<and> well_formed_before_logs r"
  then obtain t where "receipt_before_logs r = Inr t"
    using receipt_before_logs_well_formed by blast
  moreover from a have "MarshalPrivateReceipt decode r =
      then_do (receipt_before_logs r) (\<lambda>t. Inl (Error (ErrorText ''logs not found'')))"
    by (intro MarshalPrivateReceipt_logs_missing) simp
  ultimately show "MarshalPrivateReceipt decode r = Inl (Error (ErrorText ''logs not found''))"
    by simp
next
  assume "r ''commitmentHash'' = None \<and> optional_string r ''contractAddress''
        \<and> optional_string r ''output''"
  then have "receipt_before_logs r = Inl (Error (ErrorText ''commitmentHash not found''))"
    by (intro receipt_before_logs_commitmentHash) simp_all
  then show "MarshalPrivateReceipt decode r = Inl (Error (ErrorText ''commitmentHash not found''))"
    by (simp add: MarshalPrivateReceipt_def)
next
  assume "r ''transactionHash'' = None \<and> optional_string r ''contractAddress''
        \<and> optional_string r ''output'' \<and> string_entry r ''commitmentHash''"
  then have "receipt_before_logs r = Inl (Error (ErrorText ''transactionHash not found''))"
    by (intro receipt_before_logs_transactionHash) simp_all
  then show "MarshalPrivateReceipt decode r = Inl (Error (ErrorText ''transactionHash not found''))"
    by (simp add: MarshalPrivateReceipt_def)
qed

theorem C9_missing_required_field_witness:
  "MarshalPrivateReceipt decode_nothing ((map_of example_response)(''logs'' := None)) =
     Inl (Error (ErrorText ''logs not found''))
   \<and> MarshalPrivateReceipt decode_nothing Map.empty =
     Inl (Error (ErrorText ''commitmentHash not found''))
   \<and> MarshalPrivateReceipt decode_nothing [''commitmentHash'' \<mapsto> AnyString ''0x01''] =
     Inl (Error (ErrorText ''transactionHash not found''))"
  using C9_missing_required_field [of "(map_of example_response)(''logs'' := None)" decode_nothing]
    C9_missing_required_field [of Map.empty decode_nothing]
    C9_missing_required_field [of "[''commitmentHash'' \<mapsto> AnyString ''0x01'']" decode_nothing]
  by (simp add: well_formed_example_no_logs optional_string_def string_entry_def)

text \<open>
  The claim as stated fails for a map that lacks an entry read earlier: the empty map lacks
  \<^verbatim>\<open>logs\<close> and the error names \<^verbatim>\<open>commitmentHash\<close>.
\<close>

theorem C9_missing_required_field_counterexample:
  "(Map.empty :: string \<rightharpoonup> go_any) ''logs'' = None
   \<and> MarshalPrivateReceipt decode_nothing Map.empty =
     Inl (Error (ErrorText ''commitmentHash not found''))"
  by (simp add: MarshalPrivateReceipt_def receipt_before_logs_def)




end
